theory Spec2Isabelle
  imports Main "HOL-Library.AList"
begin

section \<open>The health monitoring script (healthcheck.js)\<close>

text \<open>
  The script probes two HTTP endpoints, raises an alert for each one that is down,
  appends the sweep's results to the day's log file and turns the overall status
  into the process exit code. Everything the Node runtime does on behalf of the
  script (the network, the clock, the file system, \<^verbatim>\<open>JSON.parse\<close>) is explicit:
  the runtime is a value the functions take, the mutable parts are a state they
  return, and an exception is a value of type \<open>exn\<close>.
\<close>

subsection \<open>JSON.parse\<close>

text \<open>
  \<^verbatim>\<open>JSON.parse\<close> belongs to the runtime, not to the script. It is modelled by a
  recogniser for the JSON grammar (ECMA-404) that returns the parsed value, or
  \<open>None\<close> where \<^verbatim>\<open>JSON.parse\<close> throws a SyntaxError. Numbers keep their literal
  text; an object is the list of its members in the order of the text, so a key
  written twice stands twice and the later one is the property's value.
\<close>

datatype json =
    JNull
  | JBool bool
  | JNumber string
  | JString string
  | JArray "json list"
  | JObject "(string \<times> json) list"

definition is_ws :: "char \<Rightarrow> bool" where
  "is_ws c \<longleftrightarrow> c = CHR 0x20 \<or> c = CHR 0x09 \<or> c = CHR 0x0A \<or> c = CHR 0x0D"

definition skip_ws :: "string \<Rightarrow> string" where
  "skip_ws cs = dropWhile is_ws cs"

definition is_digit :: "char \<Rightarrow> bool" where
  "is_digit c \<longleftrightarrow> c \<in> set ''0123456789''"

definition is_hex :: "char \<Rightarrow> bool" where
  "is_hex c \<longleftrightarrow> c \<in> set ''0123456789abcdefABCDEF''"

definition starts :: "char \<Rightarrow> string \<Rightarrow> bool" where
  "starts c cs = (case cs of [] \<Rightarrow> False | d # _ \<Rightarrow> d = c)"

definition startsWith :: "string \<Rightarrow> string \<Rightarrow> bool" where
  "startsWith s p \<longleftrightarrow> take (length p) s = p"

text \<open>
  The characters of a string literal, after the opening quote, up to the closing
  one, with the escapes decoded: the text is kept as bytes, so a \<^verbatim>\<open>\u\<close> escape
  becomes the UTF-8 bytes of its code unit.
\<close>

definition hex_val :: "char \<Rightarrow> nat" where
  "hex_val c =
     (if is_digit c then of_char c - 48
      else if 97 \<le> (of_char c :: nat) then of_char c - 87
      else of_char c - 55)"

definition code_unit :: "string \<Rightarrow> nat" where
  "code_unit hs = foldl (\<lambda>a c. 16 * a + hex_val c) 0 hs"

definition utf8 :: "nat \<Rightarrow> string" where
  "utf8 u =
     (if u < 0x80 then [char_of u]
      else if u < 0x800 then [char_of (0xC0 + u div 64), char_of (0x80 + u mod 64)]
      else [char_of (0xE0 + u div 4096), char_of (0x80 + (u div 64) mod 64), char_of (0x80 + u mod 64)])"

definition unescape :: "char \<Rightarrow> char" where
  "unescape e =
     (if e = CHR ''b'' then CHR 0x08
      else if e = CHR ''f'' then CHR 0x0C
      else if e = CHR ''n'' then CHR 0x0A
      else if e = CHR ''r'' then CHR 0x0D
      else if e = CHR ''t'' then CHR 0x09
      else e)"

fun parse_chars :: "string \<Rightarrow> string \<Rightarrow> (string \<times> string) option" where
  "parse_chars acc [] = None"
| "parse_chars acc [c] = (if c = CHR 0x22 then Some (acc, []) else None)"
| "parse_chars acc (c # e # es) =
     (if c = CHR 0x22 then Some (acc, e # es)
      else if c = CHR 0x5C then
        (if e \<in> set [CHR 0x22, CHR 0x5C, CHR ''/'', CHR ''b'', CHR ''f'', CHR ''n'', CHR ''r'', CHR ''t'']
         then parse_chars (acc @ [unescape e]) es
         else if e = CHR ''u'' \<and> 4 \<le> length es \<and> list_all is_hex (take 4 es)
         then parse_chars (acc @ utf8 (code_unit (take 4 es))) (drop 4 es)
         else None)
      else if (of_char c :: nat) < 0x20 then None
      else parse_chars (acc @ [c]) (e # es))"

text \<open>A number: \<^verbatim>\<open>-? (0 | [1-9][0-9]*) (. [0-9]+)? ([eE] [+-]? [0-9]+)?\<close>.\<close>

definition parse_int_part :: "string \<Rightarrow> (string \<times> string) option" where
  "parse_int_part cs =
     (if starts (CHR ''0'') cs then Some (''0'', tl cs)
      else if cs \<noteq> [] \<and> is_digit (hd cs) then Some (takeWhile is_digit cs, dropWhile is_digit cs)
      else None)"

definition parse_frac :: "string \<Rightarrow> (string \<times> string) option" where
  "parse_frac cs =
     (if starts (CHR ''.'') cs then
        (if tl cs \<noteq> [] \<and> is_digit (hd (tl cs))
         then Some (CHR ''.'' # takeWhile is_digit (tl cs), dropWhile is_digit (tl cs))
         else None)
      else Some ([], cs))"

definition parse_exp :: "string \<Rightarrow> (string \<times> string) option" where
  "parse_exp cs =
     (if starts (CHR ''e'') cs \<or> starts (CHR ''E'') cs then
        (let r = tl cs;
             sgn = (if starts (CHR ''+'') r \<or> starts (CHR ''-'') r then [hd r] else []);
             ds = drop (length sgn) r
         in if ds \<noteq> [] \<and> is_digit (hd ds)
            then Some (hd cs # sgn @ takeWhile is_digit ds, dropWhile is_digit ds)
            else None)
      else Some ([], cs))"

definition parse_number :: "string \<Rightarrow> (string \<times> string) option" where
  "parse_number cs =
     (let sgn = (if starts (CHR ''-'') cs then ''-'' else []) in
      case parse_int_part (drop (length sgn) cs) of
        None \<Rightarrow> None
      | Some (i, r1) \<Rightarrow>
          (case parse_frac r1 of
             None \<Rightarrow> None
           | Some (f, r2) \<Rightarrow>
               (case parse_exp r2 of
                  None \<Rightarrow> None
                | Some (e, r3) \<Rightarrow> Some (sgn @ i @ f @ e, r3))))"

text \<open>
  Values, array elements and object members. The first argument bounds the number
  of nested calls; \<open>JSON_parse\<close> starts with more than the text can use (lemma
  \<open>JSON_parse_any_fuel\<close> below).
\<close>

fun parse_value :: "nat \<Rightarrow> string \<Rightarrow> (json \<times> string) option"
  and parse_elements :: "nat \<Rightarrow> json list \<Rightarrow> string \<Rightarrow> (json list \<times> string) option"
  and parse_members :: "nat \<Rightarrow> (string \<times> json) list \<Rightarrow> string \<Rightarrow> ((string \<times> json) list \<times> string) option"
where
  "parse_value 0 cs = None"
| "parse_value (Suc n) cs =
     (if starts (CHR ''['') cs then
        (let r = skip_ws (tl cs) in
         if starts (CHR '']'') r then Some (JArray [], tl r)
         else map_option (\<lambda>(vs, r'). (JArray vs, r')) (parse_elements n [] r))
      else if starts (CHR ''{'') cs then
        (let r = skip_ws (tl cs) in
         if starts (CHR ''}'') r then Some (JObject [], tl r)
         else map_option (\<lambda>(ms, r'). (JObject ms, r')) (parse_members n [] r))
      else if starts (CHR 0x22) cs then
        map_option (\<lambda>(s, r'). (JString s, r')) (parse_chars [] (tl cs))
      else if startsWith cs ''true'' then Some (JBool True, drop 4 cs)
      else if startsWith cs ''false'' then Some (JBool False, drop 5 cs)
      else if startsWith cs ''null'' then Some (JNull, drop 4 cs)
      else map_option (\<lambda>(s, r'). (JNumber s, r')) (parse_number cs))"
| "parse_elements 0 acc cs = None"
| "parse_elements (Suc n) acc cs =
     (case parse_value n cs of
        None \<Rightarrow> None
      | Some (v, r) \<Rightarrow>
          (let r' = skip_ws r in
           if starts (CHR '','') r' then parse_elements n (acc @ [v]) (skip_ws (tl r'))
           else if starts (CHR '']'') r' then Some (acc @ [v], tl r')
           else None))"
| "parse_members 0 acc cs = None"
| "parse_members (Suc n) acc cs =
     (if starts (CHR 0x22) cs then
        (case parse_chars [] (tl cs) of
           None \<Rightarrow> None
         | Some (k, r) \<Rightarrow>
             (let r1 = skip_ws r in
              if starts (CHR '':'') r1 then
                (case parse_value n (skip_ws (tl r1)) of
                   None \<Rightarrow> None
                 | Some (v, r2) \<Rightarrow>
                     (let r3 = skip_ws r2 in
                      if starts (CHR '','') r3 then parse_members n (acc @ [(k, v)]) (skip_ws (tl r3))
                      else if starts (CHR ''}'') r3 then Some (acc @ [(k, v)], tl r3)
                      else None))
              else None))
      else None)"

definition JSON_parse :: "string \<Rightarrow> json option" where
  "JSON_parse s =
     (case parse_value (Suc (length s)) (skip_ws s) of
        None \<Rightarrow> None
      | Some (v, r) \<Rightarrow> if skip_ws r = [] then Some v else None)"

subsection \<open>Exceptions and asynchronous results\<close>

datatype exn =
    SyntaxError string
  | TypeError string
  | SystemError string

fun message :: "exn \<Rightarrow> string" where
  "message (SyntaxError m) = m"
| "message (TypeError m) = m"
| "message (SystemError m) = m"

text \<open>
  What comes of awaiting an asynchronous call: the promise resolves, it rejects, an
  exception thrown inside an event listener escapes to the event loop (no promise
  is settled and the process dies of the uncaught exception), or nothing ever
  settles the promise.
\<close>

datatype 'a outcome =
    Resolved 'a
  | Rejected exn
  | Uncaught exn
  | Pending

subsection \<open>Configuration (lines 8 to 18)\<close>

record environment =
  BACKEND_URL :: "string option"
  FRONTEND_URL :: "string option"
  SLACK_WEBHOOK_URL :: "string option"
  ALERT_EMAIL :: "string option"

record config =
  backend_url :: string
  backend_endpoint :: string
  frontend_url :: string
  slack_webhook :: "string option"
  email :: "string option"

text \<open>\<^verbatim>\<open>process.env.X || d\<close>: an unset or empty variable gives the default.\<close>

definition or_default :: "string option \<Rightarrow> string \<Rightarrow> string" where
  "or_default v d = (case v of None \<Rightarrow> d | Some s \<Rightarrow> if s = [] then d else s)"

definition CONFIG :: "environment \<Rightarrow> config" where
  "CONFIG env =
     \<lparr> backend_url = or_default (BACKEND_URL env) ''http://localhost:5000'',
       backend_endpoint = ''/health'',
       frontend_url = or_default (FRONTEND_URL env) ''http://localhost:3000'',
       slack_webhook = SLACK_WEBHOOK_URL env,
       email = ALERT_EMAIL env \<rparr>"

subsection \<open>The runtime\<close>

text \<open>
  A GET request as \<open>checkHealth\<close> sets it up: the module chosen from the URL's
  prefix, the URL, and the idle timeout armed with \<^verbatim>\<open>req.setTimeout\<close>.
\<close>

datatype module = Http | Https

record request =
  via :: module
  target_url :: string
  idle_timeout :: int

text \<open>
  The events the runtime delivers to the listeners of one request, in order. The
  response callback and the error listener read the clock (\<^verbatim>\<open>Date.now()\<close>), so
  these events carry its reading.
\<close>

datatype http_event =
    OnResponse int int
  | OnData string
  | OnEnd
  | OnError int string
  | OnTimeout

text \<open>
  \<^verbatim>\<open>protocol.get\<close> either throws at once (a URL it cannot parse, a protocol the
  module does not speak) or starts the request: then the clock reading taken just
  before the call and the events that follow.
\<close>

datatype get_behaviour =
    GetThrows exn
  | Request int "http_event list"

text \<open>
  What becomes of the POST to the alert sink: building the request throws, the
  response callback runs (with the status code of the response), the request
  emits an error, or neither ever happens.
\<close>

datatype sink_behaviour =
    SinkThrows exn
  | SinkResponse int
  | SinkError exn
  | SinkSilent

record runtime =
  get :: "request \<Rightarrow> get_behaviour"
  post :: "string \<Rightarrow> string \<Rightarrow> sink_behaviour"
  clock_start :: string
  clock_end :: string

text \<open>
  \<open>clock_start\<close> and \<open>clock_end\<close> are \<^verbatim>\<open>new Date().toISOString()\<close> as read for the
  report's timestamp (line 112) and for the name of the log file (line 169).
\<close>

subsection \<open>checkHealth (lines 29 to 68)\<close>

record probe_result =
  status :: int
  responseTime :: int
  healthy :: bool
  data :: "json option"
  error :: "string option"

text \<open>
  The resolved object has the property \<open>data\<close> on the response path and \<open>error\<close>
  on the two failure paths; \<open>None\<close> is an absent property, and a \<^verbatim>\<open>null\<close> body
  is \<open>Some JNull\<close>.

  \<open>deliver\<close> runs the listeners over the events. Its second argument is the state
  of the response callback once it has run: the response time, the status code and
  the text received so far. The first event that settles the promise decides.
\<close>

fun deliver :: "int \<Rightarrow> (int \<times> int \<times> string) option \<Rightarrow> http_event list \<Rightarrow> probe_result outcome" where
  "deliver startTime res [] = Pending"
| "deliver startTime res (OnResponse now statusCode # evs) =
     deliver startTime (Some (now - startTime, statusCode, [])) evs"
| "deliver startTime res (OnData chunk # evs) =
     (case res of
        None \<Rightarrow> deliver startTime None evs
      | Some (rt, statusCode, d) \<Rightarrow> deliver startTime (Some (rt, statusCode, d @ chunk)) evs)"
| "deliver startTime res (OnEnd # evs) =
     (case res of
        None \<Rightarrow> deliver startTime None evs
      | Some (rt, statusCode, d) \<Rightarrow>
          (if d \<noteq> [] then
             (case JSON_parse d of
                None \<Rightarrow> Uncaught (SyntaxError ''Unexpected token in JSON'')
              | Some v \<Rightarrow>
                  Resolved \<lparr> status = statusCode, responseTime = rt,
                             healthy = (statusCode = 200), data = Some v, error = None \<rparr>)
           else
             Resolved \<lparr> status = statusCode, responseTime = rt,
                        healthy = (statusCode = 200), data = Some JNull, error = None \<rparr>))"
| "deliver startTime res (OnError now msg # evs) =
     Resolved \<lparr> status = 0, responseTime = now - startTime,
                healthy = False, data = None, error = Some msg \<rparr>"
| "deliver startTime res (OnTimeout # evs) =
     Resolved \<lparr> status = 0, responseTime = 10000,
                healthy = False, data = None, error = Some ''Timeout'' \<rparr>"

definition probe_request :: "string \<Rightarrow> request" where
  "probe_request url =
     \<lparr> via = (if startsWith url ''https'' then Https else Http),
       target_url = url,
       idle_timeout = 10000 \<rparr>"

text \<open>An exception thrown inside the promise's executor rejects the promise.\<close>

definition checkHealth :: "runtime \<Rightarrow> string \<Rightarrow> probe_result outcome" where
  "checkHealth rt url =
     (case get rt (probe_request url) of
        GetThrows e \<Rightarrow> Rejected e
      | Request startTime evs \<Rightarrow> deliver startTime None evs)"

subsection \<open>The state the script changes\<close>

record run_results =
  timestamp :: string
  checks :: "(string \<times> probe_result) list"

text \<open>
  A log file is represented by what \<^verbatim>\<open>JSON.parse(fs.readFileSync(logFile, 'utf8'))\<close>
  followed by \<^verbatim>\<open>logs.push(results)\<close> makes of it: the read throws, the text is not
  JSON, the value is not an array (so it has no \<^verbatim>\<open>push\<close>), or it is the array of the
  reports stored so far. A file written with \<^verbatim>\<open>JSON.stringify(logs, null, 2)\<close> is the
  array \<open>logs\<close>.
\<close>

datatype contents =
    Unreadable exn
  | NotJSON
  | NotArray
  | Reports "run_results list"

datatype node = Directory | File contents

record filesys =
  nodes :: "string \<Rightarrow> node option"
  mkdir_fault :: "exn option"
  write_fault :: "exn option"

text \<open>
  \<open>mkdir_fault\<close> and \<open>write_fault\<close> say whether \<^verbatim>\<open>fs.mkdirSync\<close> and
  \<^verbatim>\<open>fs.writeFileSync\<close> throw (no permission, disk full) and what.
\<close>

datatype logged = Text string | WithError string exn

record world =
  fs :: filesys
  console_log :: "string list"
  console_error :: "logged list"
  requests_sent :: "(string \<times> string) list"

text \<open>
  \<open>console_log\<close> holds the alert lines of \<open>sendAlert\<close> (the other lines the script
  prints on standard output are left out; the exception two of them can throw is
  \<open>print_details\<close> below), \<open>console_error\<close> the
  standard error stream, \<open>requests_sent\<close> the POST requests handed to the runtime:
  the sink's URL and the text of the payload.
\<close>

definition await :: "'a outcome \<times> world \<Rightarrow> ('a \<Rightarrow> world \<Rightarrow> 'b outcome \<times> world) \<Rightarrow> 'b outcome \<times> world" where
  "await m k =
     (case m of
        (Resolved x, w) \<Rightarrow> k x w
      | (Rejected e, w) \<Rightarrow> (Rejected e, w)
      | (Uncaught e, w) \<Rightarrow> (Uncaught e, w)
      | (Pending, w) \<Rightarrow> (Pending, w))"

subsection \<open>sendAlert (lines 71 to 102)\<close>

definition alert_text :: "string \<Rightarrow> string" where
  "alert_text msg = [CHR 0xF0, CHR 0x9F, CHR 0x9A, CHR 0xA8] @ '' Health Check Alert: '' @ msg"

definition truthy :: "string option \<Rightarrow> bool" where
  "truthy v = (case v of None \<Rightarrow> False | Some s \<Rightarrow> s \<noteq> [])"

definition sendAlert :: "config \<Rightarrow> runtime \<Rightarrow> string \<Rightarrow> world \<Rightarrow> unit outcome \<times> world" where
  "sendAlert cfg rt msg w =
     (let w1 = w\<lparr>console_log := console_log w @ [''ALERT: '' @ msg]\<rparr> in
      if truthy (slack_webhook cfg) then
        (let url = the (slack_webhook cfg);
             w2 = w1\<lparr>requests_sent := requests_sent w1 @ [(url, alert_text msg)]\<rparr>
         in case post rt url (alert_text msg) of
              SinkThrows e \<Rightarrow>
                (Resolved (), w1\<lparr>console_error := console_error w1 @
                   [Text (''Failed to send Slack alert: '' @ message e)]\<rparr>)
            | SinkResponse code \<Rightarrow> (Resolved (), w2)
            | SinkError e \<Rightarrow>
                (Resolved (), w2\<lparr>console_error := console_error w2 @
                   [Text (''Failed to send Slack alert: '' @ message e)]\<rparr>)
            | SinkSilent \<Rightarrow> (Pending, w2))
      else (Resolved (), w1))"

subsection \<open>Saving the results (lines 162 to 175)\<close>

definition logDir :: string where
  "logDir = ''./logs''"

definition logFile :: "string \<Rightarrow> string" where
  "logFile stamp = logDir @ ''/health-check-'' @ takeWhile (\<lambda>c. c \<noteq> CHR ''T'') stamp @ ''.json''"

definition existsSync :: "filesys \<Rightarrow> string \<Rightarrow> bool" where
  "existsSync f p \<longleftrightarrow> nodes f p \<noteq> None"

definition mkdirSync :: "string \<Rightarrow> filesys \<Rightarrow> exn option \<times> filesys" where
  "mkdirSync p f =
     (case mkdir_fault f of
        Some e \<Rightarrow> (Some e, f)
      | None \<Rightarrow> (None, f\<lparr>nodes := (nodes f)(p \<mapsto> Directory)\<rparr>))"

definition read_logs :: "filesys \<Rightarrow> string \<Rightarrow> exn + run_results list" where
  "read_logs f p =
     (case nodes f p of
        None \<Rightarrow> Inl (SystemError ''ENOENT: no such file or directory'')
      | Some Directory \<Rightarrow> Inl (SystemError ''EISDIR: illegal operation on a directory'')
      | Some (File (Unreadable e)) \<Rightarrow> Inl e
      | Some (File NotJSON) \<Rightarrow> Inl (SyntaxError ''Unexpected token in JSON'')
      | Some (File NotArray) \<Rightarrow> Inl (TypeError ''logs.push is not a function'')
      | Some (File (Reports logs)) \<Rightarrow> Inr logs)"

definition writeFileSync :: "string \<Rightarrow> run_results list \<Rightarrow> filesys \<Rightarrow> exn option \<times> filesys" where
  "writeFileSync p logs f =
     (case write_fault f of
        Some e \<Rightarrow> (Some e, f)
      | None \<Rightarrow> (None, f\<lparr>nodes := (nodes f)(p \<mapsto> File (Reports logs))\<rparr>))"

text \<open>The block returns the exception it throws, if any, and the file system it leaves.\<close>

definition saveResults :: "runtime \<Rightarrow> run_results \<Rightarrow> filesys \<Rightarrow> exn option \<times> filesys" where
  "saveResults rt results f =
     (case (if \<not> existsSync f logDir then mkdirSync logDir f else (None, f)) of
        (Some e, f1) \<Rightarrow> (Some e, f1)
      | (None, f1) \<Rightarrow>
          (case (if existsSync f1 (logFile (clock_end rt))
                 then read_logs f1 (logFile (clock_end rt)) else Inr []) of
             Inl e \<Rightarrow> (Some e, f1)
           | Inr logs \<Rightarrow> writeFileSync (logFile (clock_end rt)) (logs @ [results]) f1))"

subsection \<open>runHealthCheck (lines 105 to 178)\<close>

text \<open>\<^verbatim>\<open>${health.error}\<close> in a template: an absent property prints as \<^verbatim>\<open>undefined\<close>.\<close>

definition error_text :: "probe_result \<Rightarrow> string" where
  "error_text h = (case error h of None \<Rightarrow> ''undefined'' | Some e \<Rightarrow> e)"

text \<open>
  Lines 126 to 129 print \<^verbatim>\<open>data.uptime / 60\<close> and \<^verbatim>\<open>data.environment\<close> in
  templates, which converts the two properties to a number and to a string. The
  conversion of an object looks for its \<^verbatim>\<open>toString\<close>; a parsed document that has
  a property of that name has a value there and no function, and the conversion
  throws a TypeError. An array is converted by joining its elements, each converted
  in turn (\<^verbatim>\<open>null\<close> gives the empty text).
\<close>

fun unprintable :: "json \<Rightarrow> bool" where
  "unprintable (JObject ms) = (''toString'' \<in> set (map fst ms))"
| "unprintable (JArray vs) = list_ex unprintable vs"
| "unprintable _ = False"

text \<open>
  The value of a property of a parsed document. Only an object has \<^verbatim>\<open>uptime\<close> or
  \<^verbatim>\<open>environment\<close>; read from any other value they are \<^verbatim>\<open>undefined\<close>.
\<close>

definition property :: "string \<Rightarrow> json \<Rightarrow> json option" where
  "property k v = (case v of JObject ms \<Rightarrow> map_of (rev ms) k | _ \<Rightarrow> None)"

definition throws_on :: "json option \<Rightarrow> bool" where
  "throws_on v = (case v of None \<Rightarrow> False | Some x \<Rightarrow> unprintable x)"

text \<open>
  The exception of lines 126 to 129, if any. Whether \<^verbatim>\<open>if (backendHealth.data)\<close>
  lets a number or a string in decides nothing: both properties are \<^verbatim>\<open>undefined\<close>
  there and print as they are.
\<close>

definition print_details :: "probe_result \<Rightarrow> exn option" where
  "print_details h =
     (case data h of
        None \<Rightarrow> None
      | Some d \<Rightarrow>
          if throws_on (property ''uptime'' d) \<or> throws_on (property ''environment'' d)
          then Some (TypeError ''Cannot convert object to primitive value'')
          else None)"

text \<open>
  Lines 122 to 134 and 141 to 149: what the sweep does with the result of the
  backend and with the result of the frontend.
\<close>

definition report_backend :: "config \<Rightarrow> runtime \<Rightarrow> probe_result \<Rightarrow> world \<Rightarrow> unit outcome \<times> world" where
  "report_backend cfg rt backendHealth w =
     (if healthy backendHealth then
        (case print_details backendHealth of
           Some e \<Rightarrow> (Rejected e, w)
         | None \<Rightarrow> (Resolved (), w))
      else sendAlert cfg rt (''Backend is down! Error: '' @ error_text backendHealth) w)"

definition report_frontend :: "config \<Rightarrow> runtime \<Rightarrow> probe_result \<Rightarrow> world \<Rightarrow> unit outcome \<times> world" where
  "report_frontend cfg rt frontendHealth w =
     (if healthy frontendHealth then (Resolved (), w)
      else sendAlert cfg rt (''Frontend is down! Error: '' @ error_text frontendHealth) w)"

definition allHealthy_of :: "run_results \<Rightarrow> bool" where
  "allHealthy_of results = list_all healthy (map snd (checks results))"

definition runHealthCheck :: "config \<Rightarrow> runtime \<Rightarrow> world \<Rightarrow> bool outcome \<times> world" where
  "runHealthCheck cfg rt w0 =
     (let results0 = \<lparr> timestamp = clock_start rt, checks = [] \<rparr>;
          backendUrl = backend_url cfg @ backend_endpoint cfg
      in
      await (checkHealth rt backendUrl, w0) (\<lambda>backendHealth w1.
      let results1 = results0\<lparr>checks := AList.update ''backend'' backendHealth (checks results0)\<rparr> in
      await (report_backend cfg rt backendHealth w1) (\<lambda>_ w2.
      await (checkHealth rt (frontend_url cfg), w2) (\<lambda>frontendHealth w3.
      let results2 = results1\<lparr>checks := AList.update ''frontend'' frontendHealth (checks results1)\<rparr> in
      await (report_frontend cfg rt frontendHealth w3) (\<lambda>_ w4.
      let allHealthy = allHealthy_of results2 in
      (case saveResults rt results2 (fs w4) of
         (Some e, f) \<Rightarrow> (Rejected e, w4\<lparr>fs := f\<rparr>)
       | (None, f) \<Rightarrow> (Resolved allHealthy, w4\<lparr>fs := f\<rparr>)))))))"

subsection \<open>The process (lines 181 to 188)\<close>

datatype exit = Exit int | Died exn | NoExit

text \<open>
  \<open>Exit c\<close> is a call of \<^verbatim>\<open>process.exit(c)\<close>; \<open>Died e\<close> is the end of the process
  by the uncaught exception \<open>e\<close>, where neither callback runs and the runtime
  itself ends the process (with its status for an uncaught exception, which is 1
  too); \<open>NoExit\<close> means that neither callback ever runs.
\<close>

definition main :: "environment \<Rightarrow> runtime \<Rightarrow> world \<Rightarrow> exit \<times> world" where
  "main env rt w =
     (case runHealthCheck (CONFIG env) rt w of
        (Resolved allHealthy, w') \<Rightarrow> (Exit (if allHealthy then 0 else 1), w')
      | (Rejected e, w') \<Rightarrow>
          (Exit 1, w'\<lparr>console_error := console_error w' @ [WithError ''Health check failed:'' e]\<rparr>)
      | (Uncaught e, w') \<Rightarrow> (Died e, w')
      | (Pending, w') \<Rightarrow> (NoExit, w'))"

subsection \<open>The scheduler and the specification's vocabulary\<close>

text \<open>
  The events that settle nothing: the response callback and a chunk of the body.
\<close>

fun quiet :: "http_event \<Rightarrow> bool" where
  "quiet (OnResponse _ _) = True"
| "quiet (OnData _) = True"
| "quiet _ = False"

text \<open>A runtime in which every POST to the sink comes to an end.\<close>

definition settling :: "runtime \<Rightarrow> bool" where
  "settling rt \<longleftrightarrow> (\<forall>u t. post rt u t \<noteq> SinkSilent)"

text \<open>
  The sequence of reports a log file holds; the empty sequence when there is no such
  file.
\<close>

definition stored :: "filesys \<Rightarrow> string \<Rightarrow> run_results list" where
  "stored f p = (case nodes f p of Some (File (Reports logs)) \<Rightarrow> logs | _ \<Rightarrow> [])"

text \<open>
  The script is started by a scheduler, one sweep per start and never two at a
  time. \<open>sweeps\<close> is a row of starts, each with the runtime it meets, each running
  to its end on the state the one before left.
\<close>

fun sweeps :: "config \<Rightarrow> runtime list \<Rightarrow> world \<Rightarrow> world option" where
  "sweeps cfg [] w = Some w"
| "sweeps cfg (rt # rts) w =
     (case runHealthCheck cfg rt w of
        (Resolved _, w') \<Rightarrow> sweeps cfg rts w'
      | _ \<Rightarrow> None)"

text \<open>
  A file system on which the recorder can work: the directory can be made, the
  file can be written, and the day's log is absent or an array of reports.
\<close>

definition writable :: "filesys \<Rightarrow> string \<Rightarrow> bool" where
  "writable f p \<longleftrightarrow>
     mkdir_fault f = None \<and> write_fault f = None
     \<and> (case nodes f p of None \<Rightarrow> True | Some (File (Reports logs)) \<Rightarrow> True | _ \<Rightarrow> False)"

text \<open>
  The specification's Target record (section 3) and its Evaluator policy (section
  4.2), in the specification's words. The script has neither a kind nor a timeout
  per target; these two definitions are what its behaviour is compared with.
\<close>

datatype kind = Reachability | LivenessJson

record target =
  t_name :: string
  t_url :: string
  t_kind :: kind
  t_timeout :: int

definition spec_healthy :: "kind \<Rightarrow> int \<Rightarrow> string \<Rightarrow> bool" where
  "spec_healthy k code body =
     (case k of
        Reachability \<Rightarrow> code = 200
      | LivenessJson \<Rightarrow> code = 200 \<and> JSON_parse body \<noteq> None)"

subsection \<open>Concrete runs\<close>

definition default_env :: environment where
  "default_env = \<lparr> BACKEND_URL = None, FRONTEND_URL = None, SLACK_WEBHOOK_URL = None, ALERT_EMAIL = None \<rparr>"

definition hooked_env :: environment where
  "hooked_env = default_env\<lparr>SLACK_WEBHOOK_URL := Some ''https://hooks.slack.com/services/T0/B0/X''\<rparr>"

definition empty_world :: world where
  "empty_world =
     \<lparr> fs = \<lparr> nodes = (\<lambda>_. None), mkdir_fault = None, write_fault = None \<rparr>,
       console_log = [], console_error = [], requests_sent = [] \<rparr>"

definition readonly_world :: world where
  "readonly_world =
     empty_world\<lparr>fs := (fs empty_world)\<lparr>write_fault := Some (SystemError ''EROFS: read-only file system'')\<rparr>\<rparr>"

text \<open>
  A runtime from what the backend's health endpoint does, what every other URL
  does, and what the sink does; the sweep starts at 10:00:00 and reaches the
  recorder ten seconds later.
\<close>

definition scenario :: "get_behaviour \<Rightarrow> get_behaviour \<Rightarrow> sink_behaviour \<Rightarrow> runtime" where
  "scenario b f s =
     \<lparr> get = (\<lambda>r. if target_url r = ''http://localhost:5000/health'' then b else f),
       post = (\<lambda>_ _. s),
       clock_start = ''2024-05-01T10:00:00.000Z'',
       clock_end = ''2024-05-01T10:00:10.050Z'' \<rparr>"

text \<open>
  A 200 response that carries an HTML page (what the frontend's development server
  sends), one with an empty body, and one with a liveness document
  \<^verbatim>\<open>{"status":"OK","uptime":3600}\<close>.
\<close>

definition page :: get_behaviour where
  "page = Request 0 [OnResponse 50 200, OnData ''<!DOCTYPE html><html></html>'', OnEnd]"

definition blank :: get_behaviour where
  "blank = Request 0 [OnResponse 50 200, OnEnd]"

definition ok_json :: get_behaviour where
  "ok_json = Request 0 [OnResponse 20 200,
     OnData (''{'' @ [CHR 0x22] @ ''status'' @ [CHR 0x22] @ '':'' @ [CHR 0x22] @ ''OK'' @ [CHR 0x22] @ '','' @
             [CHR 0x22] @ ''uptime'' @ [CHR 0x22] @ '':3600}''), OnEnd]"

text \<open>
  A 200 response with the liveness document \<^verbatim>\<open>{"uptime":{"toString":0}}\<close>, whose
  uptime cannot be converted to a number.
\<close>

definition odd_json :: get_behaviour where
  "odd_json = Request 0 [OnResponse 20 200,
     OnData (''{'' @ [CHR 0x22] @ ''uptime'' @ [CHR 0x22] @ '':{'' @
             [CHR 0x22] @ ''toString'' @ [CHR 0x22] @ '':0}}''), OnEnd]"

definition slow_target :: target where
  "slow_target =
     \<lparr> t_name = ''backend'', t_url = ''http://localhost:5000/health'',
       t_kind = LivenessJson, t_timeout = 30000 \<rparr>"

text \<open>The log file of that day.\<close>

definition day_log :: string where
  "day_log = ''./logs/health-check-2024-05-01.json''"

section \<open>Properties\<close>

subsection \<open>The bound of the parser\<close>

text \<open>
  A parse consumes at least one character, succeeds with a bound equal to the number
  of characters it consumes, and keeps its result under any larger bound. So
  \<open>JSON_parse\<close> accepts a text exactly when some bound does: the bound it starts
  with never makes it refuse a document.
\<close>

lemma skip_ws_length: "length (skip_ws cs) \<le> length cs"
  by (simp add: skip_ws_def length_dropWhile_le)

lemma parse_chars_shorter: "parse_chars acc cs = Some (s, r) \<Longrightarrow> length r < length cs"
proof (induction acc cs rule: parse_chars.induct)
  case (1 acc)
  then show ?case by simp
next
  case (2 acc c)
  then show ?case by (simp split: if_splits)
next
  case (3 acc c e es)
  then show ?case by (auto split: if_splits)
qed

lemma dropWhile_shorter: "cs \<noteq> [] \<Longrightarrow> P (hd cs) \<Longrightarrow> length (dropWhile P cs) < length cs"
  by (cases cs) (simp_all add: le_imp_less_Suc length_dropWhile_le)

lemma parse_int_part_shorter: "parse_int_part cs = Some (s, r) \<Longrightarrow> length r < length cs"
  by (auto simp: parse_int_part_def starts_def less_Suc_eq_le length_dropWhile_le split: if_splits list.splits)

lemma parse_frac_le: "parse_frac cs = Some (s, r) \<Longrightarrow> length r \<le> length cs"
  by (auto simp: parse_frac_def starts_def split: if_splits list.splits
      intro: le_trans [OF length_dropWhile_le] le_SucI)

lemma parse_exp_le: "parse_exp cs = Some (s, r) \<Longrightarrow> length r \<le> length cs"
  by (auto simp: parse_exp_def Let_def starts_def split: if_splits list.splits
      intro!: le_trans [OF length_dropWhile_le] le_SucI)

lemma parse_number_shorter:
  assumes "parse_number cs = Some (s, r)"
  shows "length r < length cs"
proof -
  from assms obtain k i r1 f r2 e where
    a: "parse_int_part (drop k cs) = Some (i, r1)" and b: "parse_frac r1 = Some (f, r2)"
    and c: "parse_exp r2 = Some (e, r)"
    unfolding parse_number_def Let_def by (auto split: option.splits)
  from parse_int_part_shorter [OF a] parse_frac_le [OF b] parse_exp_le [OF c]
  show ?thesis by simp
qed

lemma parse_mono_step:
  "(\<forall>cs x. parse_value n cs = Some x \<longrightarrow> parse_value (Suc n) cs = Some x)
   \<and> (\<forall>acc cs y. parse_elements n acc cs = Some y \<longrightarrow> parse_elements (Suc n) acc cs = Some y)
   \<and> (\<forall>acc cs z. parse_members n acc cs = Some z \<longrightarrow> parse_members (Suc n) acc cs = Some z)"
proof (induction n)
  case 0
  show ?case by simp
next
  case (Suc n)
  then have V: "\<And>cs x. parse_value n cs = Some x \<Longrightarrow> parse_value (Suc n) cs = Some x"
    and E: "\<And>acc cs y. parse_elements n acc cs = Some y \<Longrightarrow> parse_elements (Suc n) acc cs = Some y"
    and M: "\<And>acc cs z. parse_members n acc cs = Some z \<Longrightarrow> parse_members (Suc n) acc cs = Some z"
    by blast+
  note parse_value.simps [simp del] parse_elements.simps [simp del] parse_members.simps [simp del]
  have v: "parse_value (Suc (Suc n)) cs = Some x" if h: "parse_value (Suc n) cs = Some x" for cs x
    using h
    by (auto simp: parse_value.simps(2) [of "Suc n"] parse_value.simps(2) [of n] Let_def
        split: if_splits dest!: E M)
  have e: "parse_elements (Suc (Suc n)) acc cs = Some y" if h: "parse_elements (Suc n) acc cs = Some y" for acc cs y
  proof -
    from h obtain v r where pv: "parse_value n cs = Some (v, r)"
      and k: "(if starts (CHR '','') (skip_ws r) then parse_elements n (acc @ [v]) (skip_ws (tl (skip_ws r)))
               else if starts (CHR '']'') (skip_ws r) then Some (acc @ [v], tl (skip_ws r)) else None) = Some y"
      by (auto simp: parse_elements.simps(2) [of n] Let_def split: option.splits)
    from k E have "(if starts (CHR '','') (skip_ws r) then parse_elements (Suc n) (acc @ [v]) (skip_ws (tl (skip_ws r)))
               else if starts (CHR '']'') (skip_ws r) then Some (acc @ [v], tl (skip_ws r)) else None) = Some y"
      by (auto split: if_splits)
    then show ?thesis
      by (simp add: parse_elements.simps(2) [of "Suc n"] V [OF pv] Let_def)
  qed
  have m: "parse_members (Suc (Suc n)) acc cs = Some z" if h: "parse_members (Suc n) acc cs = Some z" for acc cs z
  proof -
    from h obtain k r v r2 where q: "starts (CHR 0x22) cs" and pc: "parse_chars [] (tl cs) = Some (k, r)"
      and c: "starts (CHR '':'') (skip_ws r)"
      and pv: "parse_value n (skip_ws (tl (skip_ws r))) = Some (v, r2)"
      and t: "(if starts (CHR '','') (skip_ws r2) then parse_members n (acc @ [(k, v)]) (skip_ws (tl (skip_ws r2)))
               else if starts (CHR ''}'') (skip_ws r2) then Some (acc @ [(k, v)], tl (skip_ws r2)) else None) = Some z"
      by (auto simp: parse_members.simps(2) [of n] Let_def split: option.splits if_splits)
    from t M have "(if starts (CHR '','') (skip_ws r2) then parse_members (Suc n) (acc @ [(k, v)]) (skip_ws (tl (skip_ws r2)))
               else if starts (CHR ''}'') (skip_ws r2) then Some (acc @ [(k, v)], tl (skip_ws r2)) else None) = Some z"
      by (auto split: if_splits)
    then show ?thesis
      by (simp add: parse_members.simps(2) [of "Suc n"] q pc c V [OF pv] Let_def)
  qed
  from v e m show ?case by blast
qed


lemma parse_value_mono: "n \<le> m \<Longrightarrow> parse_value n cs = Some x \<Longrightarrow> parse_value m cs = Some x"
  by (induction rule: dec_induct) (use parse_mono_step in blast)+

lemma parse_elements_mono: "n \<le> m \<Longrightarrow> parse_elements n acc cs = Some y \<Longrightarrow> parse_elements m acc cs = Some y"
  by (induction rule: dec_induct) (use parse_mono_step in blast)+

lemma parse_members_mono: "n \<le> m \<Longrightarrow> parse_members n acc cs = Some z \<Longrightarrow> parse_members m acc cs = Some z"
  by (induction rule: dec_induct) (use parse_mono_step in blast)+

lemma starts_tl: "starts c cs \<Longrightarrow> Suc (length (tl cs)) = length cs"
  by (cases cs) (simp_all add: starts_def)

lemma skip_tl_skip: "starts c (skip_ws r) \<Longrightarrow> length (skip_ws (tl (skip_ws r))) < length r"
  using starts_tl [of c "skip_ws r"] skip_ws_length [of r] skip_ws_length [of "tl (skip_ws r)"] by simp

lemma tl_skip: "starts c (skip_ws r) \<Longrightarrow> length (tl (skip_ws r)) < length r"
  using starts_tl [of c "skip_ws r"] skip_ws_length [of r] by simp

lemma startsWith_drop: "startsWith cs p \<Longrightarrow> p \<noteq> [] \<Longrightarrow> length (drop (length p) cs) < length cs"
  by (cases cs) (auto simp: startsWith_def)

lemma parse_value_cases:
  assumes "parse_value (Suc n) cs = Some x"
  obtains (array) vs r where "starts (CHR ''['') cs" "\<not> starts (CHR '']'') (skip_ws (tl cs))"
      "parse_elements n [] (skip_ws (tl cs)) = Some (vs, r)" "x = (JArray vs, r)"
  | (object) ms r where "\<not> starts (CHR ''['') cs" "starts (CHR ''{'') cs" "\<not> starts (CHR ''}'') (skip_ws (tl cs))"
      "parse_members n [] (skip_ws (tl cs)) = Some (ms, r)" "x = (JObject ms, r)"
  | (flat) "\<And>k. parse_value (Suc k) cs = Some x" "length (snd x) < length cs"
proof -
  note parse_elements.simps [simp del] parse_members.simps [simp del]
  show ?thesis
  proof (cases "starts (CHR ''['') cs")
    case True
    note br = this
    show ?thesis
    proof (cases "starts (CHR '']'') (skip_ws (tl cs))")
      case True
      with br assms have x: "x = (JArray [], tl (skip_ws (tl cs)))" by (simp add: Let_def)
      have "length (snd x) < length cs"
        using tl_skip [OF True] starts_tl [OF br] by (simp add: x)
      with br True x show ?thesis by (intro flat) (simp_all add: Let_def)
    next
      case False
      with br assms obtain vs r where
        "parse_elements n [] (skip_ws (tl cs)) = Some (vs, r)" "x = (JArray vs, r)"
        by (auto simp: Let_def)
      with br False show ?thesis by (intro array)
    qed
  next
    case False
    note nbr = this
    show ?thesis
    proof (cases "starts (CHR ''{'') cs")
      case True
      note brace = this
      show ?thesis
      proof (cases "starts (CHR ''}'') (skip_ws (tl cs))")
        case True
        with nbr brace assms have x: "x = (JObject [], tl (skip_ws (tl cs)))" by (simp add: Let_def)
        have "length (snd x) < length cs"
          using tl_skip [OF True] starts_tl [OF brace] by (simp add: x)
        with nbr brace True x show ?thesis by (intro flat) (simp_all add: Let_def)
      next
        case False
        with nbr brace assms obtain ms r where
          "parse_members n [] (skip_ws (tl cs)) = Some (ms, r)" "x = (JObject ms, r)"
          by (auto simp: Let_def)
        with nbr brace False show ?thesis by (intro object)
      qed
    next
      case False
      have same: "parse_value (Suc k) cs = parse_value (Suc n) cs" for k
        using nbr False by simp
      have "length (snd x) < length cs"
        using assms nbr False
        by (auto simp: Let_def split: if_splits
            dest!: parse_chars_shorter parse_number_shorter
            dest: starts_tl startsWith_drop)
      with same assms show ?thesis by (intro flat) simp_all
    qed
  qed
qed

lemma parse_elements_cases:
  assumes "parse_elements (Suc n) acc cs = Some y"
  obtains (more) v r where "parse_value n cs = Some (v, r)" "starts (CHR '','') (skip_ws r)"
      "parse_elements n (acc @ [v]) (skip_ws (tl (skip_ws r))) = Some y"
  | (last) v r where "parse_value n cs = Some (v, r)" "\<not> starts (CHR '','') (skip_ws r)"
      "starts (CHR '']'') (skip_ws r)" "y = (acc @ [v], tl (skip_ws r))"
  using assms by (auto simp: Let_def split: option.splits if_splits)

lemma parse_members_cases:
  assumes "parse_members (Suc n) acc cs = Some z"
  obtains (more) k r v r2 where "starts (CHR 0x22) cs" "parse_chars [] (tl cs) = Some (k, r)"
      "starts (CHR '':'') (skip_ws r)" "parse_value n (skip_ws (tl (skip_ws r))) = Some (v, r2)"
      "starts (CHR '','') (skip_ws r2)"
      "parse_members n (acc @ [(k, v)]) (skip_ws (tl (skip_ws r2))) = Some z"
  | (last) k r v r2 where "starts (CHR 0x22) cs" "parse_chars [] (tl cs) = Some (k, r)"
      "starts (CHR '':'') (skip_ws r)" "parse_value n (skip_ws (tl (skip_ws r))) = Some (v, r2)"
      "\<not> starts (CHR '','') (skip_ws r2)" "starts (CHR ''}'') (skip_ws r2)"
      "z = (acc @ [(k, v)], tl (skip_ws r2))"
  using assms by (auto simp: Let_def split: option.splits if_splits)

lemma parse_shorter:
  "(\<forall>cs x. parse_value n cs = Some x \<longrightarrow> length (snd x) < length cs)
   \<and> (\<forall>acc cs y. parse_elements n acc cs = Some y \<longrightarrow> length (snd y) < length cs)
   \<and> (\<forall>acc cs z. parse_members n acc cs = Some z \<longrightarrow> length (snd z) < length cs)"
proof (induction n)
  case 0
  show ?case by simp
next
  case (Suc n)
  then have V: "\<And>cs x. parse_value n cs = Some x \<Longrightarrow> length (snd x) < length cs"
    and E: "\<And>acc cs y. parse_elements n acc cs = Some y \<Longrightarrow> length (snd y) < length cs"
    and M: "\<And>acc cs z. parse_members n acc cs = Some z \<Longrightarrow> length (snd z) < length cs"
    by blast+
  have v: "length (snd x) < length cs" if h: "parse_value (Suc n) cs = Some x" for cs x
    using h
  proof (cases rule: parse_value_cases)
    case (array vs r)
    from E [OF array(3)] starts_tl [OF array(1)] skip_ws_length [of "tl cs"] array(4)
    show ?thesis by simp
  next
    case (object ms r)
    from M [OF object(4)] starts_tl [OF object(2)] skip_ws_length [of "tl cs"] object(5)
    show ?thesis by simp
  next
    case flat
    then show ?thesis by simp
  qed
  have e: "length (snd y) < length cs" if h: "parse_elements (Suc n) acc cs = Some y" for acc cs y
    using h
  proof (cases rule: parse_elements_cases)
    case (more v r)
    from V [OF more(1)] E [OF more(3)] skip_tl_skip [OF more(2)] show ?thesis by simp
  next
    case (last v r)
    from V [OF last(1)] tl_skip [OF last(3)] last(4) show ?thesis by simp
  qed
  have m: "length (snd z) < length cs" if h: "parse_members (Suc n) acc cs = Some z" for acc cs z
    using h
  proof (cases rule: parse_members_cases)
    case (more k r v r2)
    from parse_chars_shorter [OF more(2)] starts_tl [OF more(1)] skip_tl_skip [OF more(3)]
      V [OF more(4)] skip_tl_skip [OF more(5)] M [OF more(6)]
    show ?thesis by simp
  next
    case (last k r v r2)
    from parse_chars_shorter [OF last(2)] starts_tl [OF last(1)] skip_tl_skip [OF last(3)]
      V [OF last(4)] tl_skip [OF last(6)] last(7)
    show ?thesis by simp
  qed
  from v e m show ?case by blast
qed

lemma parse_fuel_bound:
  "(\<forall>cs x. parse_value n cs = Some x \<longrightarrow> parse_value (length cs - length (snd x)) cs = Some x)
   \<and> (\<forall>acc cs y. parse_elements n acc cs = Some y \<longrightarrow> parse_elements (length cs - length (snd y)) acc cs = Some y)
   \<and> (\<forall>acc cs z. parse_members n acc cs = Some z \<longrightarrow> parse_members (length cs - length (snd z)) acc cs = Some z)"
proof (induction n)
  case 0
  show ?case by simp
next
  case (Suc n)
  then have V: "\<And>cs x. parse_value n cs = Some x \<Longrightarrow> parse_value (length cs - length (snd x)) cs = Some x"
    and E: "\<And>acc cs y. parse_elements n acc cs = Some y \<Longrightarrow> parse_elements (length cs - length (snd y)) acc cs = Some y"
    and M: "\<And>acc cs z. parse_members n acc cs = Some z \<Longrightarrow> parse_members (length cs - length (snd z)) acc cs = Some z"
    by blast+
  have shV: "\<And>cs x. parse_value n cs = Some x \<Longrightarrow> length (snd x) < length cs"
    and shE: "\<And>acc cs y. parse_elements n acc cs = Some y \<Longrightarrow> length (snd y) < length cs"
    and shM: "\<And>acc cs z. parse_members n acc cs = Some z \<Longrightarrow> length (snd z) < length cs"
    using parse_shorter [of n] by blast+
  note parse_value.simps [simp del] parse_elements.simps [simp del] parse_members.simps [simp del]
  have v: "parse_value (length cs - length (snd x)) cs = Some x" if h: "parse_value (Suc n) cs = Some x" for cs x
    using h
  proof (cases rule: parse_value_cases)
    case (array vs r)
    let ?r0 = "skip_ws (tl cs)"
    from shE [OF array(3)] have lt: "length r < length ?r0" by simp
    from starts_tl [OF array(1)] skip_ws_length [of "tl cs"] lt
    obtain k where k: "length cs - length r = Suc k" "length ?r0 - length r \<le> k"
      by (cases "length cs - length r") (simp_all, arith?)
    from parse_elements_mono [OF k(2) E [OF array(3), simplified]]
    have "parse_elements k [] ?r0 = Some (vs, r)" .
    with array(1,2) have "parse_value (Suc k) cs = Some (JArray vs, r)"
      by (simp add: parse_value.simps(2) Let_def)
    with k(1) array(4) show ?thesis by simp
  next
    case (object ms r)
    let ?r0 = "skip_ws (tl cs)"
    from shM [OF object(4)] have lt: "length r < length ?r0" by simp
    from starts_tl [OF object(2)] skip_ws_length [of "tl cs"] lt
    obtain k where k: "length cs - length r = Suc k" "length ?r0 - length r \<le> k"
      by (cases "length cs - length r") (simp_all, arith?)
    from parse_members_mono [OF k(2) M [OF object(4), simplified]]
    have "parse_members k [] ?r0 = Some (ms, r)" .
    with object(1,2,3) have "parse_value (Suc k) cs = Some (JObject ms, r)"
      by (simp add: parse_value.simps(2) Let_def)
    with k(1) object(5) show ?thesis by simp
  next
    case flat
    from flat(2) obtain k where "length cs - length (snd x) = Suc k"
      by (cases "length cs - length (snd x)") auto
    with flat(1) show ?thesis by simp
  qed
  have e: "parse_elements (length cs - length (snd y)) acc cs = Some y"
    if h: "parse_elements (Suc n) acc cs = Some y" for acc cs y
    using h
  proof (cases rule: parse_elements_cases)
    case (more v r)
    let ?rest = "skip_ws (tl (skip_ws r))"
    from shV [OF more(1)] have l1: "length r < length cs" by simp
    from shE [OF more(3)] have l2: "length (snd y) < length ?rest" by simp
    note l3 = skip_tl_skip [OF more(2)]
    from l1 l2 l3 obtain k where k: "length cs - length (snd y) = Suc k"
      "length cs - length r \<le> k" "length ?rest - length (snd y) \<le> k"
      by (cases "length cs - length (snd y)") (simp_all, arith?)
    from parse_value_mono [OF k(2) V [OF more(1), simplified]]
    have pv: "parse_value k cs = Some (v, r)" .
    from parse_elements_mono [OF k(3) E [OF more(3)]]
    have pe: "parse_elements k (acc @ [v]) ?rest = Some y" .
    from pv pe more(2) have "parse_elements (Suc k) acc cs = Some y"
      by (simp add: parse_elements.simps(2) Let_def)
    with k(1) show ?thesis by simp
  next
    case (last v r)
    from shV [OF last(1)] have l1: "length r < length cs" by simp
    note l3 = tl_skip [OF last(3)]
    from l1 l3 last(4) obtain k where k: "length cs - length (snd y) = Suc k"
      "length cs - length r \<le> k"
      by (cases "length cs - length (snd y)") (simp_all, arith?)
    from parse_value_mono [OF k(2) V [OF last(1), simplified]]
    have pv: "parse_value k cs = Some (v, r)" .
    from pv last(2,3,4) have "parse_elements (Suc k) acc cs = Some y"
      by (simp add: parse_elements.simps(2) Let_def)
    with k(1) show ?thesis by simp
  qed
  have m: "parse_members (length cs - length (snd z)) acc cs = Some z"
    if h: "parse_members (Suc n) acc cs = Some z" for acc cs z
    using h
  proof (cases rule: parse_members_cases)
    case (more key r v r2)
    let ?c1 = "skip_ws (tl (skip_ws r))"
    let ?rest = "skip_ws (tl (skip_ws r2))"
    from parse_chars_shorter [OF more(2)] starts_tl [OF more(1)] have l0: "length r < length cs" by simp
    note l1 = skip_tl_skip [OF more(3)]
    from shV [OF more(4)] have l2: "length r2 < length ?c1" by simp
    note l3 = skip_tl_skip [OF more(5)]
    from shM [OF more(6)] have l4: "length (snd z) < length ?rest" by simp
    from l0 l1 l2 l3 l4 obtain k where k: "length cs - length (snd z) = Suc k"
      "length ?c1 - length r2 \<le> k" "length ?rest - length (snd z) \<le> k"
      by (cases "length cs - length (snd z)") (simp_all, arith?)
    from parse_value_mono [OF k(2) V [OF more(4), simplified]]
    have pv: "parse_value k ?c1 = Some (v, r2)" .
    from parse_members_mono [OF k(3) M [OF more(6)]]
    have pm: "parse_members k (acc @ [(key, v)]) ?rest = Some z" .
    from pv pm more(1,2,3,5) have "parse_members (Suc k) acc cs = Some z"
      by (simp add: parse_members.simps(2) Let_def)
    with k(1) show ?thesis by simp
  next
    case (last key r v r2)
    let ?c1 = "skip_ws (tl (skip_ws r))"
    from parse_chars_shorter [OF last(2)] starts_tl [OF last(1)] have l0: "length r < length cs" by simp
    note l1 = skip_tl_skip [OF last(3)]
    from shV [OF last(4)] have l2: "length r2 < length ?c1" by simp
    note l3 = tl_skip [OF last(6)]
    from l0 l1 l2 l3 last(7) obtain k where k: "length cs - length (snd z) = Suc k"
      "length ?c1 - length r2 \<le> k"
      by (cases "length cs - length (snd z)") (simp_all, arith?)
    from parse_value_mono [OF k(2) V [OF last(4), simplified]]
    have pv: "parse_value k ?c1 = Some (v, r2)" .
    from pv last(1,2,3,5,6,7) have "parse_members (Suc k) acc cs = Some z"
      by (simp add: parse_members.simps(2) Let_def)
    with k(1) show ?thesis by simp
  qed
  from v e m show ?case by blast
qed

lemma JSON_parse_any_fuel:
  "JSON_parse s = Some v \<longleftrightarrow> (\<exists>n r. parse_value n (skip_ws s) = Some (v, r) \<and> skip_ws r = [])"
proof
  assume "JSON_parse s = Some v"
  then obtain r where "parse_value (Suc (length s)) (skip_ws s) = Some (v, r)" "skip_ws r = []"
    unfolding JSON_parse_def by (cases "parse_value (Suc (length s)) (skip_ws s)") (auto split: if_splits)
  then show "\<exists>n r. parse_value n (skip_ws s) = Some (v, r) \<and> skip_ws r = []"
    by blast
next
  assume "\<exists>n r. parse_value n (skip_ws s) = Some (v, r) \<and> skip_ws r = []"
  then obtain n r where p: "parse_value n (skip_ws s) = Some (v, r)" and r: "skip_ws r = []" by blast
  from parse_fuel_bound [of n, THEN conjunct1, rule_format, OF p]
  have "parse_value (length (skip_ws s) - length r) (skip_ws s) = Some (v, r)" by simp
  moreover have "length (skip_ws s) - length r \<le> Suc (length s)"
    using skip_ws_length [of s] by simp
  ultimately have "parse_value (Suc (length s)) (skip_ws s) = Some (v, r)"
    by (rule parse_value_mono [rotated])
  with r show "JSON_parse s = Some v" by (simp add: JSON_parse_def)
qed

subsection \<open>The listeners of a probe\<close>

lemma deliver_healthy_iff: "deliver s res evs = Resolved r \<Longrightarrow> healthy r \<longleftrightarrow> status r = 200"
  by (induction s res evs rule: deliver.induct) (auto split: option.splits if_splits)

lemma deliver_quiet: "list_all quiet pre \<Longrightarrow> \<exists>res'. deliver s res (pre @ evs) = deliver s res' evs"
proof (induction pre arbitrary: res)
  case Nil
  then show ?case by auto
next
  case (Cons ev pre)
  then show ?case by (cases ev; cases res) auto
qed

lemma deliver_chunks:
  "deliver s (Some (rt, code, d)) (map OnData chunks @ evs) =
   deliver s (Some (rt, code, d @ concat chunks)) evs"
  by (induction chunks arbitrary: d) auto

subsection \<open>checkHealth\<close>

text \<open>
  Claim C1: for every URL and every failure mode of the probe (DNS failure,
  connection refused, TLS error, timeout, and any other failure while handling the
  response), \<open>checkHealth\<close> never raises or rejects and always resolves with status
  code 0 and an error detail.

  The code does not do this. A 200 response whose body is an HTML page makes
  \<^verbatim>\<open>JSON.parse\<close> throw inside the \<^verbatim>\<open>end\<close> listener: the promise is never settled
  and the exception reaches the event loop. And an exception thrown by
  \<^verbatim>\<open>protocol.get\<close> itself, inside the promise's executor, rejects the promise.
\<close>

theorem checkHealth_malformed_body_escapes:
  "checkHealth (scenario (Request 0 [OnTimeout]) page (SinkResponse 200)) ''http://localhost:3000''
     = Uncaught (SyntaxError ''Unexpected token in JSON'')
   \<and> checkHealth (scenario blank (GetThrows (TypeError ''Invalid URL'')) (SinkResponse 200)) ''not a url''
     = Rejected (TypeError ''Invalid URL'')"
  by code_simp

text \<open>
  Claim C2, as amended: for every result \<open>checkHealth\<close> resolves with, the healthy
  flag is true iff the status code is exactly 200, whatever the target: the script
  has no target kind, and no body decides the flag.
\<close>

theorem checkHealth_healthy_iff_status_200:
  "checkHealth rt url = Resolved r \<Longrightarrow> healthy r \<longleftrightarrow> status r = 200"
  by (auto simp: checkHealth_def split: get_behaviour.splits dest: deliver_healthy_iff)

theorem checkHealth_healthy_iff_status_200_witness:
  "checkHealth (scenario ok_json page (SinkResponse 200)) ''http://localhost:5000/health''
     = Resolved \<lparr> status = 200, responseTime = 20, healthy = True,
                  data = Some (JObject [(''status'', JString ''OK''), (''uptime'', JNumber ''3600'')]),
                  error = None \<rparr>
   \<and> (healthy \<lparr> status = 200, responseTime = 20, healthy = True,
                 data = Some (JObject [(''status'', JString ''OK''), (''uptime'', JNumber ''3600'')]),
                 error = None \<rparr>
        \<longleftrightarrow> status \<lparr> status = 200, responseTime = 20, healthy = True,
                 data = Some (JObject [(''status'', JString ''OK''), (''uptime'', JNumber ''3600'')]),
                 error = None \<rparr> = (200 :: int))"
proof -
  have h: "checkHealth (scenario ok_json page (SinkResponse 200)) ''http://localhost:5000/health''
     = Resolved \<lparr> status = 200, responseTime = 20, healthy = True,
                  data = Some (JObject [(''status'', JString ''OK''), (''uptime'', JNumber ''3600'')]),
                  error = None \<rparr>"
    by code_simp
  show ?thesis using h checkHealth_healthy_iff_status_200 [OF h] by simp
qed

text \<open>
  As it is stated, the claim fails: a liveness target that answers 200 with an empty body is
  healthy for the script, although the empty text is not a well-formed document.
\<close>

theorem empty_liveness_body_healthy_counterexample:
  "checkHealth (scenario blank page (SinkResponse 200)) (t_url slow_target)
     = Resolved \<lparr> status = 200, responseTime = 50, healthy = True, data = Some JNull, error = None \<rparr>
   \<and> \<not> spec_healthy (t_kind slow_target) 200 []"
  by code_simp

text \<open>
  Claim C8, as amended: the probe arms the same idle timeout of 10000 milliseconds
  for every URL, and a target's configured timeout changes nothing the probe does;
  when the timeout fires, 10000 is also the response time reported.
\<close>

theorem probe_timeout_fixed:
  "idle_timeout (probe_request url) = 10000
   \<and> probe_request (t_url (t\<lparr>t_timeout := d\<rparr>)) = probe_request (t_url t)
   \<and> deliver startTime res (OnTimeout # evs)
       = Resolved \<lparr> status = 0, responseTime = idle_timeout (probe_request url),
                    healthy = False, data = None, error = Some ''Timeout'' \<rparr>"
  by (simp add: probe_request_def)

text \<open>
  As it is stated, the claim fails: a target configured with a timeout of 30 seconds is
  probed with the timeout of 10 seconds, and so it is when its timeout is changed
  to 5 seconds.
\<close>

theorem target_timeout_ignored_counterexample:
  "t_timeout slow_target = 30000
   \<and> idle_timeout (probe_request (t_url slow_target)) = 10000
   \<and> idle_timeout (probe_request (t_url (slow_target\<lparr>t_timeout := 5000\<rparr>))) = 10000"
  by (simp add: slow_target_def probe_request_def)

text \<open>
  Claim C9, as amended: when the request emits an error before anything settles the
  promise, the result has status code 0, healthy false and the failure's message,
  as it is, for its error detail; when the timeout fires, the error detail is
  Timeout and the response time reported is the timeout armed.
\<close>

theorem connection_failure_result:
  "list_all quiet pre \<Longrightarrow>
   (get rt (probe_request url) = Request t0 (pre @ OnError now msg # evs) \<longrightarrow>
      checkHealth rt url
        = Resolved \<lparr> status = 0, responseTime = now - t0, healthy = False, data = None, error = Some msg \<rparr>)
   \<and> (get rt (probe_request url) = Request t0 (pre @ OnTimeout # evs) \<longrightarrow>
      checkHealth rt url
        = Resolved \<lparr> status = 0, responseTime = idle_timeout (probe_request url),
                     healthy = False, data = None, error = Some ''Timeout'' \<rparr>)"
proof (intro conjI impI)
  assume q: "list_all quiet pre"
  {
    assume g: "get rt (probe_request url) = Request t0 (pre @ OnError now msg # evs)"
    from deliver_quiet [OF q, of t0 None "OnError now msg # evs"] g
    show "checkHealth rt url
        = Resolved \<lparr> status = 0, responseTime = now - t0, healthy = False, data = None, error = Some msg \<rparr>"
      by (auto simp: checkHealth_def)
  next
    assume g: "get rt (probe_request url) = Request t0 (pre @ OnTimeout # evs)"
    from deliver_quiet [OF q, of t0 None "OnTimeout # evs"] g
    show "checkHealth rt url
        = Resolved \<lparr> status = 0, responseTime = idle_timeout (probe_request url),
                     healthy = False, data = None, error = Some ''Timeout'' \<rparr>"
      by (auto simp: checkHealth_def probe_request_def)
  }
qed

theorem connection_failure_result_witness:
  "list_all quiet []
   \<and> get (scenario (Request 0 [OnError 3 ''connect ECONNREFUSED 127.0.0.1:5000'']) blank (SinkResponse 200))
         (probe_request ''http://localhost:5000/health'')
       = Request 0 ([] @ OnError 3 ''connect ECONNREFUSED 127.0.0.1:5000'' # [])
   \<and> checkHealth (scenario (Request 0 [OnError 3 ''connect ECONNREFUSED 127.0.0.1:5000'']) blank (SinkResponse 200))
         ''http://localhost:5000/health''
       = Resolved \<lparr> status = 0, responseTime = 3 - 0, healthy = False, data = None,
                    error = Some ''connect ECONNREFUSED 127.0.0.1:5000'' \<rparr>
   \<and> list_all quiet [OnResponse 50 200, OnData ''{'']
   \<and> get (scenario (Request 0 [OnResponse 50 200, OnData ''{'', OnTimeout]) blank (SinkResponse 200))
         (probe_request ''http://localhost:5000/health'')
       = Request 0 ([OnResponse 50 200, OnData ''{''] @ OnTimeout # [])
   \<and> checkHealth (scenario (Request 0 [OnResponse 50 200, OnData ''{'', OnTimeout]) blank (SinkResponse 200))
         ''http://localhost:5000/health''
       = Resolved \<lparr> status = 0, responseTime = idle_timeout (probe_request ''http://localhost:5000/health''),
                    healthy = False, data = None, error = Some ''Timeout'' \<rparr>"
proof -
  have q1: "list_all quiet []" by simp
  have g1: "get (scenario (Request 0 [OnError 3 ''connect ECONNREFUSED 127.0.0.1:5000'']) blank (SinkResponse 200))
         (probe_request ''http://localhost:5000/health'')
       = Request 0 ([] @ OnError 3 ''connect ECONNREFUSED 127.0.0.1:5000'' # [])"
    by (simp add: scenario_def probe_request_def)
  have q2: "list_all quiet [OnResponse 50 200, OnData ''{'']" by simp
  have g2: "get (scenario (Request 0 [OnResponse 50 200, OnData ''{'', OnTimeout]) blank (SinkResponse 200))
         (probe_request ''http://localhost:5000/health'')
       = Request 0 ([OnResponse 50 200, OnData ''{''] @ OnTimeout # [])"
    by (simp add: scenario_def probe_request_def)
  show ?thesis
    using q1 g1 q2 g2
      connection_failure_result [OF q1, THEN conjunct1, rule_format, OF g1]
      connection_failure_result [OF q2, THEN conjunct2, rule_format, OF g2]
    by simp
qed

text \<open>
  As it is stated, the claim fails: the error detail is the failure's message unchecked, so
  a failure whose message is empty leaves an empty error detail.
\<close>

theorem empty_error_detail_counterexample:
  "checkHealth (scenario (Request 0 [OnError 3 []]) blank (SinkResponse 200)) ''http://localhost:5000/health''
     = Resolved \<lparr> status = 0, responseTime = 3, healthy = False, data = None, error = Some [] \<rparr>"
  by code_simp

text \<open>
  Claim C10: a 200 response whose body is empty resolves with healthy true and a
  null \<open>data\<close>; the empty text is never handed to \<^verbatim>\<open>JSON.parse\<close>.
\<close>

theorem empty_body_200_healthy:
  "get rt (probe_request url) = Request t0 (OnResponse now 200 # map OnData chunks @ OnEnd # evs) \<Longrightarrow>
   concat chunks = [] \<Longrightarrow>
   checkHealth rt url
     = Resolved \<lparr> status = 200, responseTime = now - t0, healthy = True, data = Some JNull, error = None \<rparr>"
  by (simp add: checkHealth_def deliver_chunks)

theorem empty_body_200_healthy_witness:
  "get (scenario blank page (SinkResponse 200)) (probe_request ''http://localhost:5000/health'')
     = Request 0 (OnResponse 50 200 # map OnData [] @ OnEnd # [])
   \<and> concat ([] :: string list) = []
   \<and> checkHealth (scenario blank page (SinkResponse 200)) ''http://localhost:5000/health''
     = Resolved \<lparr> status = 200, responseTime = 50 - 0, healthy = True, data = Some JNull, error = None \<rparr>"
proof -
  have g: "get (scenario blank page (SinkResponse 200)) (probe_request ''http://localhost:5000/health'')
     = Request 0 (OnResponse 50 200 # map OnData [] @ OnEnd # [])"
    by (simp add: scenario_def probe_request_def blank_def)
  have c: "concat ([] :: string list) = []" by simp
  show ?thesis using g c empty_body_200_healthy [OF g c] by simp
qed

subsection \<open>Awaiting, alerts and the recorder\<close>

lemma await_simps [simp]:
  "await (Resolved x, w) k = k x w"
  "await (Rejected e, w) k = (Rejected e, w)"
  "await (Uncaught e, w) k = (Uncaught e, w)"
  "await (Pending, w) k = (Pending, w)"
  by (simp_all add: await_def)

lemma sendAlert_fs: "fs (snd (sendAlert cfg rt msg w)) = fs w"
  by (simp add: sendAlert_def Let_def split: sink_behaviour.splits)

lemma sendAlert_console_log:
  "console_log (snd (sendAlert cfg rt msg w)) = console_log w @ [''ALERT: '' @ msg]"
  by (simp add: sendAlert_def Let_def split: sink_behaviour.splits)

lemma sendAlert_outcome:
  "fst (sendAlert cfg rt msg w) =
     (if truthy (slack_webhook cfg) \<and> post rt (the (slack_webhook cfg)) (alert_text msg) = SinkSilent
      then Pending else Resolved ())"
  by (simp add: sendAlert_def Let_def split: sink_behaviour.splits)

lemma alert_step_cases:
  obtains (settled) w' where
      "(if healthy h then (Resolved (), w) else sendAlert cfg rt msg w) = (Resolved (), w')"
      "fs w' = fs w"
      "console_log w' = console_log w @ (if healthy h then [] else [''ALERT: '' @ msg])"
  | (silent) w' where
      "(if healthy h then (Resolved (), w) else sendAlert cfg rt msg w) = (Pending, w')"
      "\<not> healthy h" "truthy (slack_webhook cfg)"
      "post rt (the (slack_webhook cfg)) (alert_text msg) = SinkSilent"
proof (cases "healthy h")
  case True
  then show ?thesis using settled [of w] by simp
next
  case False
  let ?r = "sendAlert cfg rt msg w"
  have c: "?r = (fst ?r, snd ?r)" by simp
  show ?thesis
  proof (cases "truthy (slack_webhook cfg) \<and> post rt (the (slack_webhook cfg)) (alert_text msg) = SinkSilent")
    case True
    then have "fst ?r = Pending" by (simp add: sendAlert_outcome)
    with c have "?r = (Pending, snd ?r)" by simp
    then show ?thesis using silent [of "snd ?r"] False True by simp
  next
    case nonsilent: False
    then have "fst ?r = Resolved ()" by (simp add: sendAlert_outcome)
    with c have "?r = (Resolved (), snd ?r)" by simp
    then show ?thesis using settled [of "snd ?r"] False
      by (simp add: sendAlert_fs sendAlert_console_log)
  qed
qed

lemma report_frontend_cases:
  obtains (settled) w' where
      "report_frontend cfg rt h w = (Resolved (), w')"
      "fs w' = fs w"
      "console_log w' = console_log w
         @ (if healthy h then [] else [''ALERT: '' @ ''Frontend is down! Error: '' @ error_text h])"
  | (silent) w' where
      "report_frontend cfg rt h w = (Pending, w')"
      "\<not> healthy h" "truthy (slack_webhook cfg)"
      "post rt (the (slack_webhook cfg)) (alert_text (''Frontend is down! Error: '' @ error_text h)) = SinkSilent"
  unfolding report_frontend_def
  by (rule alert_step_cases [where h=h and w=w and cfg=cfg and rt=rt
        and msg="''Frontend is down! Error: '' @ error_text h"])

lemma report_backend_cases:
  obtains (settled) w' where
      "report_backend cfg rt h w = (Resolved (), w')"
      "fs w' = fs w"
      "console_log w' = console_log w
         @ (if healthy h then [] else [''ALERT: '' @ ''Backend is down! Error: '' @ error_text h])"
      "\<not> healthy h \<or> print_details h = None"
  | (silent) w' where
      "report_backend cfg rt h w = (Pending, w')"
      "\<not> healthy h" "truthy (slack_webhook cfg)"
      "post rt (the (slack_webhook cfg)) (alert_text (''Backend is down! Error: '' @ error_text h)) = SinkSilent"
  | (thrown) e where
      "report_backend cfg rt h w = (Rejected e, w)"
      "healthy h" "print_details h = Some e"
proof (cases "healthy h")
  case True
  show ?thesis
  proof (cases "print_details h")
    case None
    with True show ?thesis using settled [of w] by (simp add: report_backend_def)
  next
    case (Some e)
    with True show ?thesis using thrown [of e] by (simp add: report_backend_def)
  qed
next
  case False
  then have eq: "report_backend cfg rt h w =
      (if healthy h then (Resolved (), w)
       else sendAlert cfg rt (''Backend is down! Error: '' @ error_text h) w)"
    by (simp add: report_backend_def)
  show ?thesis
  proof (cases rule: alert_step_cases [where h=h and w=w and cfg=cfg and rt=rt
        and msg="''Backend is down! Error: '' @ error_text h"])
    case (settled w')
    with eq False show ?thesis using that(1) [of w'] by simp
  next
    case (silent w')
    with eq show ?thesis using that(2) [of w'] by simp
  qed
qed

lemma report_frontend_settling:
  assumes "settling rt"
  obtains w' where
      "report_frontend cfg rt h w = (Resolved (), w')"
      "fs w' = fs w"
      "console_log w' = console_log w
         @ (if healthy h then [] else [''ALERT: '' @ ''Frontend is down! Error: '' @ error_text h])"
proof (cases rule: report_frontend_cases [where h=h and w=w and cfg=cfg and rt=rt])
  case (settled w')
  then show ?thesis using that by blast
next
  case (silent w')
  with assms show ?thesis by (simp add: settling_def)
qed

lemma report_backend_settling:
  assumes "settling rt"
  obtains (settled) w' where
      "report_backend cfg rt h w = (Resolved (), w')"
      "fs w' = fs w"
      "console_log w' = console_log w
         @ (if healthy h then [] else [''ALERT: '' @ ''Backend is down! Error: '' @ error_text h])"
      "\<not> healthy h \<or> print_details h = None"
  | (thrown) e where
      "report_backend cfg rt h w = (Rejected e, w)"
      "healthy h" "print_details h = Some e"
proof (cases rule: report_backend_cases [where h=h and w=w and cfg=cfg and rt=rt])
  case (settled w')
  then show ?thesis using that(1) by blast
next
  case (silent w')
  with assms show ?thesis by (simp add: settling_def)
next
  case (thrown e)
  then show ?thesis using that(2) by blast
qed

lemma run_unfold:
  assumes B: "checkHealth rt (backend_url cfg @ backend_endpoint cfg) = Resolved bh"
    and A1: "report_backend cfg rt bh w = (Resolved (), w2)"
    and F: "checkHealth rt (frontend_url cfg) = Resolved fh"
    and A2: "report_frontend cfg rt fh w2 = (Resolved (), w4)"
  shows "runHealthCheck cfg rt w =
          (case saveResults rt \<lparr> timestamp = clock_start rt,
                                  checks = [(''backend'', bh), (''frontend'', fh)] \<rparr> (fs w4) of
             (Some e, f) \<Rightarrow> (Rejected e, w4\<lparr>fs := f\<rparr>)
           | (None, f) \<Rightarrow> (Resolved (healthy bh \<and> healthy fh), w4\<lparr>fs := f\<rparr>))"
  unfolding runHealthCheck_def Let_def
  by (simp only: B await_simps A1 F A2) (simp add: allHealthy_of_def split: prod.splits option.splits)

lemma run_backend_stops:
  assumes "checkHealth rt (backend_url cfg @ backend_endpoint cfg) = oc"
  shows "oc = Rejected e \<Longrightarrow> runHealthCheck cfg rt w = (Rejected e, w)"
    and "oc = Uncaught e \<Longrightarrow> runHealthCheck cfg rt w = (Uncaught e, w)"
    and "oc = Pending \<Longrightarrow> runHealthCheck cfg rt w = (Pending, w)"
  using assms unfolding runHealthCheck_def Let_def by simp_all

lemma run_report_backend_stops:
  assumes B: "checkHealth rt (backend_url cfg @ backend_endpoint cfg) = Resolved bh"
  shows "report_backend cfg rt bh w = (Pending, w2) \<Longrightarrow> runHealthCheck cfg rt w = (Pending, w2)"
    and "report_backend cfg rt bh w = (Rejected e, w2) \<Longrightarrow> runHealthCheck cfg rt w = (Rejected e, w2)"
  unfolding runHealthCheck_def Let_def
  by (simp_all only: B await_simps)

lemma run_frontend_stops:
  assumes B: "checkHealth rt (backend_url cfg @ backend_endpoint cfg) = Resolved bh"
    and A1: "report_backend cfg rt bh w = (Resolved (), w2)"
    and F: "checkHealth rt (frontend_url cfg) = oc"
  shows "oc = Rejected e \<Longrightarrow> runHealthCheck cfg rt w = (Rejected e, w2)"
    and "oc = Uncaught e \<Longrightarrow> runHealthCheck cfg rt w = (Uncaught e, w2)"
    and "oc = Pending \<Longrightarrow> runHealthCheck cfg rt w = (Pending, w2)"
  unfolding runHealthCheck_def Let_def
  using F by (simp_all only: B await_simps A1)

lemma run_report_frontend_stops:
  assumes B: "checkHealth rt (backend_url cfg @ backend_endpoint cfg) = Resolved bh"
    and A1: "report_backend cfg rt bh w = (Resolved (), w2)"
    and F: "checkHealth rt (frontend_url cfg) = Resolved fh"
    and A2: "report_frontend cfg rt fh w2 = (Pending, w4)"
  shows "runHealthCheck cfg rt w = (Pending, w4)"
  unfolding runHealthCheck_def Let_def
  by (simp only: B await_simps A1 F A2)

text \<open>
  A sweep that resolves has had both probes resolve, has printed the details of the
  backend without an exception, and has saved the report made of the two results.
\<close>

lemma run_resolvedD:
  assumes R: "runHealthCheck cfg rt w = (Resolved b, w')"
  shows "\<exists>bh fh. checkHealth rt (backend_url cfg @ backend_endpoint cfg) = Resolved bh
          \<and> checkHealth rt (frontend_url cfg) = Resolved fh
          \<and> saveResults rt \<lparr> timestamp = clock_start rt,
                               checks = [(''backend'', bh), (''frontend'', fh)] \<rparr> (fs w) = (None, fs w')
          \<and> b = (healthy bh \<and> healthy fh)"
proof (cases "checkHealth rt (backend_url cfg @ backend_endpoint cfg)")
  case (Resolved bh)
  note B = this
  show ?thesis
  proof (cases rule: report_backend_cases [where h=bh and w=w and cfg=cfg and rt=rt])
    case (settled w2)
    note A1 = settled(1)
    show ?thesis
    proof (cases "checkHealth rt (frontend_url cfg)")
      case (Resolved fh)
      note F = this
      show ?thesis
      proof (cases rule: report_frontend_cases [where h=fh and w=w2 and cfg=cfg and rt=rt])
        case (settled w4)
        note A2 = settled(1)
        have fs4: "fs w4 = fs w" using settled(2) \<open>fs w2 = fs w\<close> by simp
        from R run_unfold [OF B A1 F A2] fs4 B F show ?thesis
          by (auto split: prod.splits option.splits)
      next
        case (silent w4)
        with R run_report_frontend_stops [OF B A1 F silent(1)] show ?thesis by simp
      qed
    next
      case (Rejected e)
      with R run_frontend_stops(1) [OF B A1 Rejected] show ?thesis by simp
    next
      case (Uncaught e)
      with R run_frontend_stops(2) [OF B A1 Uncaught] show ?thesis by simp
    next
      case Pending
      with R run_frontend_stops(3) [OF B A1 Pending] show ?thesis by simp
    qed
  next
    case (silent w2)
    with R run_report_backend_stops(1) [OF B silent(1)] show ?thesis by simp
  next
    case (thrown e)
    with R run_report_backend_stops(2) [OF B thrown(1)] show ?thesis by simp
  qed
next
  case (Rejected e)
  with R run_backend_stops(1) [OF Rejected] show ?thesis by simp
next
  case (Uncaught e)
  with R run_backend_stops(2) [OF Uncaught] show ?thesis by simp
next
  case Pending
  with R run_backend_stops(3) [OF Pending] show ?thesis by simp
qed

lemma logFile_not_logDir: "logFile stamp \<noteq> logDir"
  by (simp add: logFile_def)

lemma saveResults_okD:
  assumes "saveResults rt r f = (None, f')"
  shows "nodes f' (logFile (clock_end rt)) = Some (File (Reports (stored f (logFile (clock_end rt)) @ [r])))"
  using assms logFile_not_logDir [of "clock_end rt"]
  by (auto simp: saveResults_def existsSync_def mkdirSync_def read_logs_def writeFileSync_def stored_def
      split: if_splits option.splits prod.splits sum.splits node.splits contents.splits)

lemma stored_after_save:
  assumes "saveResults rt r f = (None, f')"
  shows "stored f' (logFile (clock_end rt)) = stored f (logFile (clock_end rt)) @ [r]"
  using saveResults_okD [OF assms] by (simp add: stored_def)

text \<open>
  The report a sweep appends is its own: the timestamp read at its start and the
  results of its two probes, after everything the day's log held before.
\<close>

lemma run_appends_own_report:
  assumes "runHealthCheck cfg rt w = (Resolved b, w')"
  shows "\<exists>bh fh. checkHealth rt (backend_url cfg @ backend_endpoint cfg) = Resolved bh
          \<and> checkHealth rt (frontend_url cfg) = Resolved fh
          \<and> nodes (fs w') (logFile (clock_end rt))
              = Some (File (Reports (stored (fs w) (logFile (clock_end rt))
                  @ [\<lparr> timestamp = clock_start rt,
                       checks = [(''backend'', bh), (''frontend'', fh)] \<rparr>])))
          \<and> b = (healthy bh \<and> healthy fh)"
proof -
  from run_resolvedD [OF assms] obtain bh fh where
    B: "checkHealth rt (backend_url cfg @ backend_endpoint cfg) = Resolved bh"
    and F: "checkHealth rt (frontend_url cfg) = Resolved fh"
    and sv: "saveResults rt \<lparr> timestamp = clock_start rt,
                               checks = [(''backend'', bh), (''frontend'', fh)] \<rparr> (fs w) = (None, fs w')"
    and b: "b = (healthy bh \<and> healthy fh)" by blast
  from saveResults_okD [OF sv] B F b show ?thesis by blast
qed

lemma run_appends:
  assumes "runHealthCheck cfg rt w = (Resolved b, w')"
  shows "\<exists>r. nodes (fs w') (logFile (clock_end rt)) = Some (File (Reports (stored (fs w) (logFile (clock_end rt)) @ [r])))
           \<and> map fst (checks r) = [''backend'', ''frontend'']
           \<and> (b \<longleftrightarrow> (\<forall>c \<in> set (map snd (checks r)). healthy c))"
proof -
  from run_resolvedD [OF assms] obtain bh fh where
    sv: "saveResults rt \<lparr> timestamp = clock_start rt,
                               checks = [(''backend'', bh), (''frontend'', fh)] \<rparr> (fs w) = (None, fs w')"
    and b: "b = (healthy bh \<and> healthy fh)" by blast
  from saveResults_okD [OF sv] b show ?thesis by auto
qed

lemma sweeps_append:
  "sweeps cfg rts w = Some w' \<Longrightarrow> list_all (\<lambda>rt. logFile (clock_end rt) = p) rts \<Longrightarrow>
   \<exists>logs. stored (fs w') p = stored (fs w) p @ logs \<and> length logs = length rts"
proof (induction rts arbitrary: w)
  case Nil
  then show ?case by simp
next
  case (Cons rt rts)
  from Cons.prems(1) obtain b w1 where
    r: "runHealthCheck cfg rt w = (Resolved b, w1)" and s: "sweeps cfg rts w1 = Some w'"
    by (auto split: prod.splits outcome.splits)
  from Cons.prems(2) have p: "logFile (clock_end rt) = p" and ps: "list_all (\<lambda>rt. logFile (clock_end rt) = p) rts"
    by simp_all
  from run_appends [OF r] p obtain x where "stored (fs w1) p = stored (fs w) p @ [x]"
    by (auto simp: stored_def)
  moreover from Cons.IH [OF s ps] obtain logs where
    "stored (fs w') p = stored (fs w1) p @ logs" "length logs = length rts" by blast
  ultimately have "stored (fs w') p = stored (fs w) p @ (x # logs) \<and> length (x # logs) = length (rt # rts)"
    by simp
  then show ?case by blast
qed

lemma checkHealth_post [simp]: "checkHealth (rt\<lparr>post := p\<rparr>) url = checkHealth rt url"
  by (simp add: checkHealth_def)

lemma saveResults_post [simp]: "saveResults (rt\<lparr>post := p\<rparr>) r f = saveResults rt r f"
  by (simp add: saveResults_def cong: prod.case_cong option.case_cong sum.case_cong if_cong)

lemma sendAlert_post_settled:
  "settling (rt\<lparr>post := p\<rparr>) \<Longrightarrow> fst (sendAlert cfg (rt\<lparr>post := p\<rparr>) msg w) = Resolved ()"
  by (simp add: sendAlert_outcome settling_def)

lemma run_post_irrelevant:
  assumes S: "settling rt" and S': "settling (rt\<lparr>post := p\<rparr>)"
  shows "fst (runHealthCheck cfg (rt\<lparr>post := p\<rparr>) w) = fst (runHealthCheck cfg rt w)
       \<and> fs (snd (runHealthCheck cfg (rt\<lparr>post := p\<rparr>) w)) = fs (snd (runHealthCheck cfg rt w))
       \<and> console_log (snd (runHealthCheck cfg (rt\<lparr>post := p\<rparr>) w)) = console_log (snd (runHealthCheck cfg rt w))"
proof (cases "checkHealth rt (backend_url cfg @ backend_endpoint cfg)")
  case (Resolved bh)
  note B = this
  then have B': "checkHealth (rt\<lparr>post := p\<rparr>) (backend_url cfg @ backend_endpoint cfg) = Resolved bh" by simp
  from S show ?thesis
  proof (cases rule: report_backend_settling [where h=bh and w=w and cfg=cfg and rt=rt])
    case (thrown e)
    then have T': "report_backend cfg (rt\<lparr>post := p\<rparr>) bh w = (Rejected e, w)"
      by (simp add: report_backend_def)
    show ?thesis
      unfolding run_report_backend_stops(2) [OF B thrown(1)] run_report_backend_stops(2) [OF B' T']
      by simp
  next
    case (settled w2)
    note A1 = settled(1) and w2 = settled(2,3)
    obtain v2 where A1': "report_backend cfg (rt\<lparr>post := p\<rparr>) bh w = (Resolved (), v2)"
      and v2: "fs v2 = fs w" "console_log v2 = console_log w
         @ (if healthy bh then [] else [''ALERT: '' @ ''Backend is down! Error: '' @ error_text bh])"
      using S'
    proof (cases rule: report_backend_settling [where h=bh and w=w and cfg=cfg and rt="rt\<lparr>post := p\<rparr>"])
      case (settled v2)
      then show ?thesis using that by blast
    next
      case (thrown e)
      with settled(4) show ?thesis by simp
    qed
    show ?thesis
    proof (cases "checkHealth rt (frontend_url cfg)")
      case (Resolved fh)
      note F = this
      then have F': "checkHealth (rt\<lparr>post := p\<rparr>) (frontend_url cfg) = Resolved fh" by simp
      obtain w4 where A2: "report_frontend cfg rt fh w2 = (Resolved (), w4)"
        and w4: "fs w4 = fs w2" "console_log w4 = console_log w2
           @ (if healthy fh then [] else [''ALERT: '' @ ''Frontend is down! Error: '' @ error_text fh])"
        by (rule report_frontend_settling [OF S])
      obtain v4 where A2': "report_frontend cfg (rt\<lparr>post := p\<rparr>) fh v2 = (Resolved (), v4)"
        and v4: "fs v4 = fs v2" "console_log v4 = console_log v2
           @ (if healthy fh then [] else [''ALERT: '' @ ''Frontend is down! Error: '' @ error_text fh])"
        by (rule report_frontend_settling [OF S'])
      show ?thesis
        unfolding run_unfold [OF B A1 F A2] run_unfold [OF B' A1' F' A2']
        using w2 v2 w4 v4 by (simp split: prod.splits option.splits)
    next
      case (Rejected e)
      then have F': "checkHealth (rt\<lparr>post := p\<rparr>) (frontend_url cfg) = Rejected e" by simp
      show ?thesis
        unfolding run_frontend_stops(1) [OF B A1 Rejected refl] run_frontend_stops(1) [OF B' A1' F' refl]
        using w2 v2 by simp
    next
      case (Uncaught e)
      then have F': "checkHealth (rt\<lparr>post := p\<rparr>) (frontend_url cfg) = Uncaught e" by simp
      show ?thesis
        unfolding run_frontend_stops(2) [OF B A1 Uncaught refl] run_frontend_stops(2) [OF B' A1' F' refl]
        using w2 v2 by simp
    next
      case Pending
      then have F': "checkHealth (rt\<lparr>post := p\<rparr>) (frontend_url cfg) = Pending" by simp
      show ?thesis
        unfolding run_frontend_stops(3) [OF B A1 Pending refl] run_frontend_stops(3) [OF B' A1' F' refl]
        using w2 v2 by simp
    qed
  qed
next
  case (Rejected e)
  then have B': "checkHealth (rt\<lparr>post := p\<rparr>) (backend_url cfg @ backend_endpoint cfg) = Rejected e" by simp
  show ?thesis
    unfolding run_backend_stops(1) [OF Rejected refl] run_backend_stops(1) [OF B' refl] by simp
next
  case (Uncaught e)
  then have B': "checkHealth (rt\<lparr>post := p\<rparr>) (backend_url cfg @ backend_endpoint cfg) = Uncaught e" by simp
  show ?thesis
    unfolding run_backend_stops(2) [OF Uncaught refl] run_backend_stops(2) [OF B' refl] by simp
next
  case Pending
  then have B': "checkHealth (rt\<lparr>post := p\<rparr>) (backend_url cfg @ backend_endpoint cfg) = Pending" by simp
  show ?thesis
    unfolding run_backend_stops(3) [OF Pending refl] run_backend_stops(3) [OF B' refl] by simp
qed

lemma main_exit:
  "fst (main env rt w) =
     (case fst (runHealthCheck (CONFIG env) rt w) of
        Resolved allHealthy \<Rightarrow> Exit (if allHealthy then 0 else 1)
      | Rejected e \<Rightarrow> Exit 1
      | Uncaught e \<Rightarrow> Died e
      | Pending \<Rightarrow> NoExit)"
  by (simp add: main_def split: prod.splits outcome.splits)

lemma main_fs: "fs (snd (main env rt w)) = fs (snd (runHealthCheck (CONFIG env) rt w))"
  by (simp add: main_def split: prod.splits outcome.splits)

lemma main_console_log: "console_log (snd (main env rt w)) = console_log (snd (runHealthCheck (CONFIG env) rt w))"
  by (simp add: main_def split: prod.splits outcome.splits)

lemma sweeps_step:
  "fst (runHealthCheck cfg rt w) = Resolved b \<Longrightarrow>
   sweeps cfg (rt # rts) w = sweeps cfg rts (snd (runHealthCheck cfg rt w))"
  by (cases "runHealthCheck cfg rt w") simp

lemma saveResults_writable:
  assumes "writable f (logFile (clock_end rt))"
  shows "fst (saveResults rt r f) = None"
  using assms logFile_not_logDir [of "clock_end rt"]
  by (auto simp: writable_def saveResults_def existsSync_def mkdirSync_def read_logs_def writeFileSync_def
      split: if_splits option.splits prod.splits sum.splits node.splits contents.splits)

lemma deliver_end_parsed:
  "d \<noteq> [] \<Longrightarrow> JSON_parse d = Some v \<Longrightarrow>
   deliver s (Some (rt, code, d)) (OnEnd # evs)
     = Resolved \<lparr> status = code, responseTime = rt, healthy = (code = 200), data = Some v, error = None \<rparr>"
  by simp

lemma checkHealth_200:
  assumes g: "get rt (probe_request url) = Request t1 (OnResponse now 200 # map OnData chunks @ OnEnd # evs)"
    and b: "concat chunks = [] \<or> JSON_parse (concat chunks) \<noteq> None"
  shows "\<exists>h. checkHealth rt url = Resolved h \<and> healthy h \<and> status h = 200"
proof (cases "concat chunks = []")
  case True
  then show ?thesis using g by (simp add: checkHealth_def deliver_chunks)
next
  case False
  with b obtain v where "JSON_parse (concat chunks) = Some v" by auto
  with False g show ?thesis by (simp add: checkHealth_def deliver_chunks)
qed


subsection \<open>The sweep\<close>

text \<open>
  Claim C3: the overall healthy boolean of a sweep is true iff every check of the
  report it stored is healthy. The report is the last entry of the day's log file,
  its checks are those of the backend and of the frontend, and the boolean is what
  \<open>runHealthCheck\<close> resolves with.
\<close>

theorem runHealthCheck_overall_is_every_check:
  "runHealthCheck cfg rt w = (Resolved allHealthy, w') \<Longrightarrow>
   \<exists>logs results.
      nodes (fs w') (logFile (clock_end rt)) = Some (File (Reports (logs @ [results])))
      \<and> map fst (checks results) = [''backend'', ''frontend'']
      \<and> (allHealthy \<longleftrightarrow> (\<forall>check \<in> set (map snd (checks results)). healthy check))"
proof -
  assume "runHealthCheck cfg rt w = (Resolved allHealthy, w')"
  from run_appends [OF this] obtain r where
    r: "nodes (fs w') (logFile (clock_end rt)) = Some (File (Reports (stored (fs w) (logFile (clock_end rt)) @ [r])))
      \<and> map fst (checks r) = [''backend'', ''frontend'']
      \<and> (allHealthy \<longleftrightarrow> (\<forall>c \<in> set (map snd (checks r)). healthy c))" ..
  show ?thesis
    by (rule exI [of _ "stored (fs w) (logFile (clock_end rt))"], rule exI [of _ r]) (rule r)
qed

theorem runHealthCheck_overall_is_every_check_witness:
  "fst (runHealthCheck (CONFIG default_env) (scenario (Request 0 [OnTimeout]) blank (SinkResponse 200)) empty_world)
     = Resolved False
   \<and> (\<exists>logs results.
      nodes (fs (snd (runHealthCheck (CONFIG default_env) (scenario (Request 0 [OnTimeout]) blank (SinkResponse 200)) empty_world)))
        (logFile (clock_end (scenario (Request 0 [OnTimeout]) blank (SinkResponse 200))))
          = Some (File (Reports (logs @ [results])))
      \<and> map fst (checks results) = [''backend'', ''frontend'']
      \<and> (False \<longleftrightarrow> (\<forall>check \<in> set (map snd (checks results)). healthy check)))"
proof -
  let ?run = "runHealthCheck (CONFIG default_env) (scenario (Request 0 [OnTimeout]) blank (SinkResponse 200)) empty_world"
  have f: "fst ?run = Resolved False" by code_simp
  then have h: "?run = (Resolved False, snd ?run)" by (simp add: prod_eq_iff)
  show ?thesis using f runHealthCheck_overall_is_every_check [OF h] by simp
qed

text \<open>
  Claim C4: one sweep appends exactly one report to the sequence the day's log file
  held before and writes the whole sequence back, so that after N sweeps of a day
  the file holds N reports.

  The code does not do this when the frontend's 200 response carries an HTML page.
  With the backend healthy and the log writable, each sweep dies in the probe of
  the frontend, before the recorder: after two sweeps the day's log holds no report
  and the file does not exist. (A sweep that runs to its end does append its own
  report, and only that: lemmas \<open>run_appends_own_report\<close> and \<open>sweeps_append\<close>.)
\<close>

theorem sweeps_with_html_frontend_store_nothing:
  "logFile (clock_end (scenario ok_json page (SinkResponse 200))) = day_log
   \<and> fst (main default_env (scenario ok_json page (SinkResponse 200)) empty_world)
       = Died (SyntaxError ''Unexpected token in JSON'')
   \<and> fst (main default_env (scenario ok_json page (SinkResponse 200))
          (snd (main default_env (scenario ok_json page (SinkResponse 200)) empty_world)))
       = Died (SyntaxError ''Unexpected token in JSON'')
   \<and> stored (fs (snd (main default_env (scenario ok_json page (SinkResponse 200))
          (snd (main default_env (scenario ok_json page (SinkResponse 200)) empty_world))))) day_log = []
   \<and> nodes (fs (snd (main default_env (scenario ok_json page (SinkResponse 200))
          (snd (main default_env (scenario ok_json page (SinkResponse 200)) empty_world))))) day_log = None"
  by code_simp

text \<open>
  Claim C5: when the backend times out and the frontend answers 200, the report's
  overall healthy is false, one alert is raised for the backend and none for the
  frontend, and the exit code is 1.

  The code does not do this when the frontend's 200 response carries an HTML page:
  the alert for the backend is raised, then \<^verbatim>\<open>JSON.parse\<close> throws inside the
  probe of the frontend, the process dies of the uncaught exception, no report is
  built and the log file is not written.
\<close>

theorem sweep_dies_on_html_frontend:
  "fst (main default_env (scenario (Request 0 [OnTimeout]) page (SinkResponse 200)) empty_world)
     = Died (SyntaxError ''Unexpected token in JSON'')
   \<and> console_log (snd (main default_env (scenario (Request 0 [OnTimeout]) page (SinkResponse 200)) empty_world))
     = [''ALERT: Backend is down! Error: Timeout'']
   \<and> nodes (fs (snd (main default_env (scenario (Request 0 [OnTimeout]) page (SinkResponse 200)) empty_world)))
       (logFile ''2024-05-01T10:00:10.050Z'') = None"
  by code_simp

text \<open>
  Claim C6, as amended: without a webhook URL (unset or empty) \<open>sendAlert\<close> only
  prints the alert and resolves. With one, an error of the request or an exception
  while it is built is caught and logged to standard error, and a response of the
  sink, whatever its status code, logs nothing. \<open>sendAlert\<close> never touches the
  file system; and when every request to the sink comes to an end, the exit of the
  process and the files it leaves (the stored reports among them) do not depend on
  what the sink did.
\<close>

theorem sendAlert_failures_contained:
  "(\<not> truthy (slack_webhook cfg) \<longrightarrow>
      sendAlert cfg rt msg w = (Resolved (), w\<lparr>console_log := console_log w @ [''ALERT: '' @ msg]\<rparr>))
   \<and> (truthy (slack_webhook cfg)
        \<and> (post rt (the (slack_webhook cfg)) (alert_text msg) = SinkError e
           \<or> post rt (the (slack_webhook cfg)) (alert_text msg) = SinkThrows e) \<longrightarrow>
      fst (sendAlert cfg rt msg w) = Resolved ()
      \<and> console_error (snd (sendAlert cfg rt msg w))
          = console_error w @ [Text (''Failed to send Slack alert: '' @ message e)])
   \<and> (truthy (slack_webhook cfg)
        \<and> post rt (the (slack_webhook cfg)) (alert_text msg) = SinkResponse code \<longrightarrow>
      fst (sendAlert cfg rt msg w) = Resolved ()
      \<and> console_error (snd (sendAlert cfg rt msg w)) = console_error w)
   \<and> fs (snd (sendAlert cfg rt msg w)) = fs w
   \<and> (settling rt \<and> settling (rt\<lparr>post := p\<rparr>) \<longrightarrow>
      fst (main env (rt\<lparr>post := p\<rparr>) w) = fst (main env rt w)
      \<and> fs (snd (main env (rt\<lparr>post := p\<rparr>) w)) = fs (snd (main env rt w)))"
proof (intro conjI impI)
  show "fs (snd (sendAlert cfg rt msg w)) = fs w" by (rule sendAlert_fs)
next
  assume "\<not> truthy (slack_webhook cfg)"
  then show "sendAlert cfg rt msg w = (Resolved (), w\<lparr>console_log := console_log w @ [''ALERT: '' @ msg]\<rparr>)"
    by (simp add: sendAlert_def)
next
  assume a: "truthy (slack_webhook cfg)
        \<and> (post rt (the (slack_webhook cfg)) (alert_text msg) = SinkError e
           \<or> post rt (the (slack_webhook cfg)) (alert_text msg) = SinkThrows e)"
  then show "fst (sendAlert cfg rt msg w) = Resolved ()"
    by (auto simp: sendAlert_def Let_def)
  from a show "console_error (snd (sendAlert cfg rt msg w))
          = console_error w @ [Text (''Failed to send Slack alert: '' @ message e)]"
    by (auto simp: sendAlert_def Let_def)
next
  assume a: "truthy (slack_webhook cfg)
        \<and> post rt (the (slack_webhook cfg)) (alert_text msg) = SinkResponse code"
  then show "fst (sendAlert cfg rt msg w) = Resolved ()"
    by (simp add: sendAlert_def Let_def)
  from a show "console_error (snd (sendAlert cfg rt msg w)) = console_error w"
    by (simp add: sendAlert_def Let_def)
next
  assume s: "settling rt \<and> settling (rt\<lparr>post := p\<rparr>)"
  then have r: "fst (runHealthCheck (CONFIG env) (rt\<lparr>post := p\<rparr>) w) = fst (runHealthCheck (CONFIG env) rt w)"
    "fs (snd (runHealthCheck (CONFIG env) (rt\<lparr>post := p\<rparr>) w)) = fs (snd (runHealthCheck (CONFIG env) rt w))"
    using run_post_irrelevant [of rt p "CONFIG env" w] by simp_all
  from r(1) show "fst (main env (rt\<lparr>post := p\<rparr>) w) = fst (main env rt w)" by (simp add: main_exit)
  from r(2) show "fs (snd (main env (rt\<lparr>post := p\<rparr>) w)) = fs (snd (main env rt w))" by (simp add: main_fs)
qed

theorem sendAlert_failures_contained_witness:
  "\<not> truthy (slack_webhook (CONFIG default_env))
   \<and> sendAlert (CONFIG default_env) (scenario blank blank (SinkResponse 200)) ''Backend is down! Error: Timeout'' empty_world
       = (Resolved (), empty_world\<lparr>console_log := console_log empty_world @ [''ALERT: '' @ ''Backend is down! Error: Timeout'']\<rparr>)
   \<and> truthy (slack_webhook (CONFIG hooked_env))
   \<and> post (scenario blank blank (SinkError (SystemError ''getaddrinfo ENOTFOUND hooks.slack.com'')))
        (the (slack_webhook (CONFIG hooked_env))) (alert_text ''Backend is down! Error: Timeout'')
       = SinkError (SystemError ''getaddrinfo ENOTFOUND hooks.slack.com'')
   \<and> fst (sendAlert (CONFIG hooked_env) (scenario blank blank (SinkError (SystemError ''getaddrinfo ENOTFOUND hooks.slack.com'')))
        ''Backend is down! Error: Timeout'' empty_world) = Resolved ()
   \<and> console_error (snd (sendAlert (CONFIG hooked_env) (scenario blank blank (SinkError (SystemError ''getaddrinfo ENOTFOUND hooks.slack.com'')))
        ''Backend is down! Error: Timeout'' empty_world))
       = console_error empty_world @ [Text (''Failed to send Slack alert: '' @ message (SystemError ''getaddrinfo ENOTFOUND hooks.slack.com''))]
   \<and> post (scenario blank blank (SinkResponse 500))
        (the (slack_webhook (CONFIG hooked_env))) (alert_text ''Backend is down! Error: Timeout'')
       = SinkResponse 500
   \<and> fst (sendAlert (CONFIG hooked_env) (scenario blank blank (SinkResponse 500)) ''Backend is down! Error: Timeout'' empty_world)
       = Resolved ()
   \<and> console_error (snd (sendAlert (CONFIG hooked_env) (scenario blank blank (SinkResponse 500))
        ''Backend is down! Error: Timeout'' empty_world)) = console_error empty_world
   \<and> settling (scenario (Request 0 [OnTimeout]) blank (SinkResponse 500))
   \<and> settling ((scenario (Request 0 [OnTimeout]) blank (SinkResponse 500))
        \<lparr>post := \<lambda>_ _. SinkError (SystemError ''getaddrinfo ENOTFOUND hooks.slack.com'')\<rparr>)
   \<and> fst (main hooked_env ((scenario (Request 0 [OnTimeout]) blank (SinkResponse 500))
        \<lparr>post := \<lambda>_ _. SinkError (SystemError ''getaddrinfo ENOTFOUND hooks.slack.com'')\<rparr>) empty_world)
       = fst (main hooked_env (scenario (Request 0 [OnTimeout]) blank (SinkResponse 500)) empty_world)
   \<and> fs (snd (main hooked_env ((scenario (Request 0 [OnTimeout]) blank (SinkResponse 500))
        \<lparr>post := \<lambda>_ _. SinkError (SystemError ''getaddrinfo ENOTFOUND hooks.slack.com'')\<rparr>) empty_world))
       = fs (snd (main hooked_env (scenario (Request 0 [OnTimeout]) blank (SinkResponse 500)) empty_world))"
proof -
  let ?msg = "''Backend is down! Error: Timeout''"
  let ?e = "SystemError ''getaddrinfo ENOTFOUND hooks.slack.com''"
  have t0: "\<not> truthy (slack_webhook (CONFIG default_env))"
    by (simp add: truthy_def CONFIG_def default_env_def)
  have t1: "truthy (slack_webhook (CONFIG hooked_env))"
    by (simp add: truthy_def CONFIG_def hooked_env_def default_env_def)
  have p1: "post (scenario blank blank (SinkError ?e)) (the (slack_webhook (CONFIG hooked_env))) (alert_text ?msg) = SinkError ?e"
    by (simp add: scenario_def)
  have p2: "post (scenario blank blank (SinkResponse 500)) (the (slack_webhook (CONFIG hooked_env))) (alert_text ?msg) = SinkResponse 500"
    by (simp add: scenario_def)
  have s1: "settling (scenario (Request 0 [OnTimeout]) blank (SinkResponse 500))"
    by (simp add: settling_def scenario_def)
  have s2: "settling ((scenario (Request 0 [OnTimeout]) blank (SinkResponse 500))\<lparr>post := \<lambda>_ _. SinkError ?e\<rparr>)"
    by (simp add: settling_def)
  note a = sendAlert_failures_contained [where cfg="CONFIG default_env" and rt="scenario blank blank (SinkResponse 200)" and msg="?msg" and w=empty_world,
      THEN conjunct1, rule_format, OF t0]
  note b = sendAlert_failures_contained [where cfg="CONFIG hooked_env" and rt="scenario blank blank (SinkError ?e)" and msg="?msg" and e="?e" and w=empty_world,
      THEN conjunct2, THEN conjunct1, rule_format, OF conjI [OF t1 disjI1 [OF p1]]]
  note c = sendAlert_failures_contained [where cfg="CONFIG hooked_env" and rt="scenario blank blank (SinkResponse 500)" and msg="?msg" and code=500 and w=empty_world,
      THEN conjunct2, THEN conjunct2, THEN conjunct1, rule_format, OF conjI [OF t1 p2]]
  note d = sendAlert_failures_contained [where rt="scenario (Request 0 [OnTimeout]) blank (SinkResponse 500)" and w=empty_world
        and p="\<lambda>_ _. SinkError ?e" and env=hooked_env,
      THEN conjunct2, THEN conjunct2, THEN conjunct2, THEN conjunct2, rule_format, OF conjI [OF s1 s2]]
  from t0 t1 p1 p2 s1 s2 a b c d show ?thesis by (intro conjI) (simp_all only: simp_thms)
qed

text \<open>
  As it is stated, the claim fails: a sink that answers 500 is a delivery the script takes
  for a success; nothing is logged to standard error.
\<close>

theorem sink_500_not_logged_counterexample:
  "post (scenario (Request 0 [OnTimeout]) blank (SinkResponse 500))
      (the (slack_webhook (CONFIG hooked_env))) (alert_text ''Backend is down! Error: Timeout'') = SinkResponse 500
   \<and> console_error (snd (sendAlert (CONFIG hooked_env) (scenario (Request 0 [OnTimeout]) blank (SinkResponse 500))
        ''Backend is down! Error: Timeout'' empty_world)) = []
   \<and> console_error (snd (main hooked_env (scenario (Request 0 [OnTimeout]) blank (SinkResponse 500)) empty_world)) = []"
  by code_simp

text \<open>
  Claim C7, as amended: in a sweep that comes to the recorder (both probes resolve,
  the details of a healthy backend print without an exception, the alerts come to
  an end), an exception of the recorder (creating the directory, reading or parsing
  the day's file, writing it) makes \<open>runHealthCheck\<close> reject after every probe and
  alert of the sweep; the process logs it to standard error after the words Health
  check failed and exits with code 1, the exit code of an unhealthy target.
\<close>

theorem persistence_failure_exits_1:
  assumes B: "checkHealth rt (backend_url (CONFIG env) @ backend_endpoint (CONFIG env)) = Resolved bh"
    and D: "healthy bh \<Longrightarrow> print_details bh = None"
    and F: "checkHealth rt (frontend_url (CONFIG env)) = Resolved fh"
    and S: "settling rt"
    and P: "fst (saveResults rt \<lparr> timestamp = clock_start rt,
                                    checks = [(''backend'', bh), (''frontend'', fh)] \<rparr> (fs w)) = Some e"
  shows "fst (runHealthCheck (CONFIG env) rt w) = Rejected e
       \<and> fst (main env rt w) = Exit 1
       \<and> last (console_error (snd (main env rt w))) = WithError ''Health check failed:'' e
       \<and> console_log (snd (main env rt w))
           = console_log w
             @ (if healthy bh then [] else [''ALERT: Backend is down! Error: '' @ error_text bh])
             @ (if healthy fh then [] else [''ALERT: Frontend is down! Error: '' @ error_text fh])"
proof -
  obtain w2 where A1: "report_backend (CONFIG env) rt bh w = (Resolved (), w2)"
    and w2: "fs w2 = fs w"
      "console_log w2 = console_log w @ (if healthy bh then [] else [''ALERT: '' @ ''Backend is down! Error: '' @ error_text bh])"
    using S
  proof (cases rule: report_backend_settling [where h=bh and w=w and cfg="CONFIG env" and rt=rt])
    case (settled w2)
    then show ?thesis using that by blast
  next
    case (thrown e')
    with D show ?thesis by simp
  qed
  obtain w4 where A2: "report_frontend (CONFIG env) rt fh w2 = (Resolved (), w4)"
    and w4: "fs w4 = fs w2"
      "console_log w4 = console_log w2 @ (if healthy fh then [] else [''ALERT: '' @ ''Frontend is down! Error: '' @ error_text fh])"
    by (rule report_frontend_settling [OF S])
  let ?sv = "saveResults rt \<lparr> timestamp = clock_start rt,
                                    checks = [(''backend'', bh), (''frontend'', fh)] \<rparr> (fs w)"
  from P have sv: "?sv = (Some e, snd ?sv)" by (simp add: prod_eq_iff)
  have run: "runHealthCheck (CONFIG env) rt w = (Rejected e, w4\<lparr>fs := snd ?sv\<rparr>)"
    unfolding run_unfold [OF B A1 F A2] w4(1) w2(1) by (subst sv) simp
  then show ?thesis using w2 w4 by (simp add: main_def)
qed

theorem persistence_failure_exits_1_witness:
  "checkHealth (scenario ok_json blank (SinkResponse 200)) (backend_url (CONFIG default_env) @ backend_endpoint (CONFIG default_env))
     = Resolved \<lparr> status = 200, responseTime = 20, healthy = True,
                  data = Some (JObject [(''status'', JString ''OK''), (''uptime'', JNumber ''3600'')]), error = None \<rparr>
   \<and> print_details \<lparr> status = 200, responseTime = 20, healthy = True,
                  data = Some (JObject [(''status'', JString ''OK''), (''uptime'', JNumber ''3600'')]), error = None \<rparr> = None
   \<and> checkHealth (scenario ok_json blank (SinkResponse 200)) (frontend_url (CONFIG default_env))
     = Resolved \<lparr> status = 200, responseTime = 50, healthy = True, data = Some JNull, error = None \<rparr>
   \<and> settling (scenario ok_json blank (SinkResponse 200))
   \<and> fst (saveResults (scenario ok_json blank (SinkResponse 200))
        \<lparr> timestamp = clock_start (scenario ok_json blank (SinkResponse 200)),
          checks = [(''backend'', \<lparr> status = 200, responseTime = 20, healthy = True,
                        data = Some (JObject [(''status'', JString ''OK''), (''uptime'', JNumber ''3600'')]), error = None \<rparr>),
                    (''frontend'', \<lparr> status = 200, responseTime = 50, healthy = True, data = Some JNull, error = None \<rparr>)] \<rparr>
        (fs readonly_world)) = Some (SystemError ''EROFS: read-only file system'')
   \<and> fst (runHealthCheck (CONFIG default_env) (scenario ok_json blank (SinkResponse 200)) readonly_world)
       = Rejected (SystemError ''EROFS: read-only file system'')
   \<and> fst (main default_env (scenario ok_json blank (SinkResponse 200)) readonly_world) = Exit 1
   \<and> last (console_error (snd (main default_env (scenario ok_json blank (SinkResponse 200)) readonly_world)))
       = WithError ''Health check failed:'' (SystemError ''EROFS: read-only file system'')
   \<and> console_log (snd (main default_env (scenario ok_json blank (SinkResponse 200)) readonly_world)) = []"
proof -
  let ?rt = "scenario ok_json blank (SinkResponse 200)"
  let ?bh = "\<lparr> status = 200, responseTime = 20, healthy = True,
                  data = Some (JObject [(''status'', JString ''OK''), (''uptime'', JNumber ''3600'')]), error = None \<rparr>"
  let ?fh = "\<lparr> status = 200, responseTime = 50, healthy = True, data = Some JNull, error = None \<rparr>"
  have B: "checkHealth ?rt (backend_url (CONFIG default_env) @ backend_endpoint (CONFIG default_env)) = Resolved ?bh"
    by code_simp
  have D: "print_details ?bh = None"
    by code_simp
  have F: "checkHealth ?rt (frontend_url (CONFIG default_env)) = Resolved ?fh"
    by code_simp
  have S: "settling ?rt" by (simp add: settling_def scenario_def)
  have P: "fst (saveResults ?rt \<lparr> timestamp = clock_start ?rt, checks = [(''backend'', ?bh), (''frontend'', ?fh)] \<rparr>
        (fs readonly_world)) = Some (SystemError ''EROFS: read-only file system'')"
    by code_simp
  from B D F S P persistence_failure_exits_1 [OF B D F S P] show ?thesis
    by (simp add: empty_world_def readonly_world_def)
qed

text \<open>
  As it is stated, the claim fails: the exit code does not tell a persistence failure from
  an unhealthy target. With both targets healthy the process exits 0; with both
  healthy and a read-only file system it exits 1; with the backend down and a
  working file system it exits 1 as well.
\<close>

theorem persistence_exit_code_not_distinct_counterexample:
  "fst (main default_env (scenario ok_json blank (SinkResponse 200)) empty_world) = Exit 0
   \<and> fst (main default_env (scenario ok_json blank (SinkResponse 200)) readonly_world) = Exit 1
   \<and> fst (main default_env (scenario (Request 0 [OnTimeout]) blank (SinkResponse 200)) empty_world) = Exit 1"
  by code_simp

subsection \<open>A backend whose details cannot be printed\<close>

text \<open>
  A healthy backend whose uptime is an object with a \<^verbatim>\<open>toString\<close> property makes
  line 127 throw: the sweep rejects before it probes the frontend, nothing is
  stored, and the process logs the TypeError and exits with code 1.
\<close>

lemma sweep_rejects_on_unprintable_uptime:
  "fst (runHealthCheck (CONFIG default_env) (scenario odd_json blank (SinkResponse 200)) empty_world)
     = Rejected (TypeError ''Cannot convert object to primitive value'')
   \<and> fst (main default_env (scenario odd_json blank (SinkResponse 200)) empty_world) = Exit 1
   \<and> console_error (snd (main default_env (scenario odd_json blank (SinkResponse 200)) empty_world))
     = [WithError ''Health check failed:'' (TypeError ''Cannot convert object to primitive value'')]
   \<and> nodes (fs (snd (main default_env (scenario odd_json blank (SinkResponse 200)) empty_world))) day_log = None"
  by code_simp

subsection \<open>What the sweep does when the bodies can be read\<close>

text \<open>
  The exit code of the process: 0 exactly when \<open>runHealthCheck\<close> resolves with
  true, 1 exactly when it resolves with false or rejects.
\<close>

theorem process_exit_code:
  "(fst (main env rt w) = Exit 0 \<longleftrightarrow> fst (runHealthCheck (CONFIG env) rt w) = Resolved True)
   \<and> (fst (main env rt w) = Exit 1 \<longleftrightarrow>
        fst (runHealthCheck (CONFIG env) rt w) = Resolved False
        \<or> (\<exists>e. fst (runHealthCheck (CONFIG env) rt w) = Rejected e))"
  by (cases "fst (runHealthCheck (CONFIG env) rt w)") (auto simp: main_exit)

text \<open>
  The scenario of claim C5 with a frontend whose 200 response has an empty body or
  a body that is JSON: the sweep resolves with false, raises the one alert for the
  backend, appends its report (backend timed out, frontend healthy) to the day's
  log, and the process exits with code 1.
\<close>

theorem backend_timeout_frontend_ok:
  assumes gb: "get rt (probe_request (backend_url (CONFIG env) @ backend_endpoint (CONFIG env)))
                 = Request t0 (OnTimeout # evs)"
    and gf: "get rt (probe_request (frontend_url (CONFIG env)))
                 = Request t1 (OnResponse now 200 # map OnData chunks @ OnEnd # evs')"
    and body: "concat chunks = [] \<or> JSON_parse (concat chunks) \<noteq> None"
    and S: "settling rt"
    and W: "writable (fs w) (logFile (clock_end rt))"
  shows "fst (runHealthCheck (CONFIG env) rt w) = Resolved False
       \<and> fst (main env rt w) = Exit 1
       \<and> console_log (snd (main env rt w)) = console_log w @ [''ALERT: Backend is down! Error: Timeout'']
       \<and> (\<exists>fh. healthy fh \<and>
            stored (fs (snd (main env rt w))) (logFile (clock_end rt))
              = stored (fs w) (logFile (clock_end rt))
                @ [\<lparr> timestamp = clock_start rt,
                     checks = [(''backend'', \<lparr> status = 0, responseTime = 10000, healthy = False,
                                                 data = None, error = Some ''Timeout'' \<rparr>),
                               (''frontend'', fh)] \<rparr>])"
proof -
  let ?bh = "\<lparr> status = 0, responseTime = 10000, healthy = False, data = None, error = Some ''Timeout'' \<rparr>"
  have B: "checkHealth rt (backend_url (CONFIG env) @ backend_endpoint (CONFIG env)) = Resolved ?bh"
    using gb by (simp add: checkHealth_def)
  from checkHealth_200 [OF gf body] obtain fh where
    F: "checkHealth rt (frontend_url (CONFIG env)) = Resolved fh" and hf: "healthy fh" by blast
  obtain w2 where A1: "report_backend (CONFIG env) rt ?bh w = (Resolved (), w2)"
    and w2: "fs w2 = fs w"
      "console_log w2 = console_log w @ (if healthy ?bh then [] else [''ALERT: '' @ ''Backend is down! Error: '' @ error_text ?bh])"
    using S
  proof (cases rule: report_backend_settling [where h="?bh" and w=w and cfg="CONFIG env" and rt=rt])
    case (settled w2)
    then show ?thesis using that by blast
  next
    case (thrown e')
    then show ?thesis by simp
  qed
  obtain w4 where A2: "report_frontend (CONFIG env) rt fh w2 = (Resolved (), w4)"
    and w4: "fs w4 = fs w2"
      "console_log w4 = console_log w2 @ (if healthy fh then [] else [''ALERT: '' @ ''Frontend is down! Error: '' @ error_text fh])"
    by (rule report_frontend_settling [OF S])
  let ?R = "\<lparr> timestamp = clock_start rt, checks = [(''backend'', ?bh), (''frontend'', fh)] \<rparr>"
  let ?sv = "saveResults rt ?R (fs w)"
  from saveResults_writable [OF W] have sv: "?sv = (None, snd ?sv)" by (simp add: prod_eq_iff)
  have run: "runHealthCheck (CONFIG env) rt w = (Resolved False, w4\<lparr>fs := snd ?sv\<rparr>)"
    unfolding run_unfold [OF B A1 F A2] w4(1) w2(1) by (subst sv) simp
  from stored_after_save [OF sv]
  have st: "stored (snd ?sv) (logFile (clock_end rt)) = stored (fs w) (logFile (clock_end rt)) @ [?R]" .
  from run w2 w4 hf have "fst (runHealthCheck (CONFIG env) rt w) = Resolved False
       \<and> fst (main env rt w) = Exit 1
       \<and> console_log (snd (main env rt w)) = console_log w @ [''ALERT: Backend is down! Error: Timeout'']"
    by (simp add: main_def error_text_def)
  moreover from run st have "stored (fs (snd (main env rt w))) (logFile (clock_end rt))
              = stored (fs w) (logFile (clock_end rt)) @ [?R]"
    by (simp add: main_def)
  ultimately show ?thesis using hf by blast
qed

theorem backend_timeout_frontend_ok_witness:
  "get (scenario (Request 0 [OnTimeout]) blank (SinkResponse 200))
       (probe_request (backend_url (CONFIG default_env) @ backend_endpoint (CONFIG default_env)))
     = Request 0 (OnTimeout # [])
   \<and> get (scenario (Request 0 [OnTimeout]) blank (SinkResponse 200))
       (probe_request (frontend_url (CONFIG default_env)))
     = Request 0 (OnResponse 50 200 # map OnData [] @ OnEnd # [])
   \<and> concat ([] :: string list) = []
   \<and> settling (scenario (Request 0 [OnTimeout]) blank (SinkResponse 200))
   \<and> writable (fs empty_world) (logFile (clock_end (scenario (Request 0 [OnTimeout]) blank (SinkResponse 200))))
   \<and> fst (runHealthCheck (CONFIG default_env) (scenario (Request 0 [OnTimeout]) blank (SinkResponse 200)) empty_world)
     = Resolved False
   \<and> fst (main default_env (scenario (Request 0 [OnTimeout]) blank (SinkResponse 200)) empty_world) = Exit 1
   \<and> console_log (snd (main default_env (scenario (Request 0 [OnTimeout]) blank (SinkResponse 200)) empty_world))
     = console_log empty_world @ [''ALERT: Backend is down! Error: Timeout'']"
proof -
  let ?rt = "scenario (Request 0 [OnTimeout]) blank (SinkResponse 200)"
  have gb: "get ?rt (probe_request (backend_url (CONFIG default_env) @ backend_endpoint (CONFIG default_env)))
     = Request 0 (OnTimeout # [])"
    by (simp add: scenario_def probe_request_def CONFIG_def default_env_def or_default_def)
  have gf: "get ?rt (probe_request (frontend_url (CONFIG default_env)))
     = Request 0 (OnResponse 50 200 # map OnData [] @ OnEnd # [])"
    by (simp add: scenario_def probe_request_def CONFIG_def default_env_def or_default_def blank_def)
  have body: "concat ([] :: string list) = [] \<or> JSON_parse (concat ([] :: string list)) \<noteq> None" by simp
  have S: "settling ?rt" by (simp add: settling_def scenario_def)
  have W: "writable (fs empty_world) (logFile (clock_end ?rt))"
    by (simp add: writable_def empty_world_def)
  from gb gf S W backend_timeout_frontend_ok [OF gb gf body S W] show ?thesis by simp
qed

end
